theory Spec2Isabelle
  imports Main "HOL-Library.Word"
begin

unbundle bit_operations_syntax

text \<open>
  A shallow embedding of the chat server: the credential hasher and token generator of
  \<open>src/lib/utils.ts\<close>, the mail dispatcher of \<open>src/lib/resend.ts\<close>, the four tables of the
  schema, and the request handlers of \<open>src/index.tsx\<close> as functions from the store and the
  request to the response and the store they leave. Clock readings, random bytes and the
  answer of the mail service are inputs of the handlers.
\<close>

section \<open>Strings and bytes of the platform\<close>

text \<open>
  A JavaScript string is a sequence of 16-bit code units; \<open>s.length\<close> counts code
  units and \<open>s + t\<close> is concatenation. A \<open>Uint8Array\<close> is a list of bytes.
  String literals of the source are ASCII and are written with \<open>lit\<close>.
\<close>

type_synonym jsstring = "16 word list"
type_synonym bytes = "8 word list"

definition lit :: "string \<Rightarrow> jsstring" where
  "lit s = map (\<lambda>c. of_nat (of_char c)) s"

definition COLON :: "16 word" where
  "COLON = 58"

definition ZERO_CHAR :: "16 word" where
  "ZERO_CHAR = 48"

text \<open>
  \<open>TextEncoder.encode\<close>: the string is first read as a sequence of Unicode scalar
  values (a high surrogate followed by a low surrogate is one supplementary code point, any
  other surrogate is replaced by U+FFFD), and each scalar value is written in UTF-8.
\<close>

definition is_high_surrogate :: "16 word \<Rightarrow> bool" where
  "is_high_surrogate c = (0xD800 \<le> unat c \<and> unat c \<le> 0xDBFF)"

definition is_low_surrogate :: "16 word \<Rightarrow> bool" where
  "is_low_surrogate c = (0xDC00 \<le> unat c \<and> unat c \<le> 0xDFFF)"

definition utf8_of_scalar :: "nat \<Rightarrow> bytes" where
  "utf8_of_scalar n =
     (if n < 0x80 then [of_nat n]
      else if n < 0x800 then [of_nat (0xC0 + n div 64), of_nat (0x80 + n mod 64)]
      else if n < 0x10000 then
        [of_nat (0xE0 + n div 4096), of_nat (0x80 + n div 64 mod 64), of_nat (0x80 + n mod 64)]
      else
        [of_nat (0xF0 + n div 262144), of_nat (0x80 + n div 4096 mod 64),
         of_nat (0x80 + n div 64 mod 64), of_nat (0x80 + n mod 64)])"

fun scalar_values :: "jsstring \<Rightarrow> nat list" where
  "scalar_values [] = []"
| "scalar_values [c] =
     (if is_high_surrogate c \<or> is_low_surrogate c then [0xFFFD] else [unat c])"
| "scalar_values (c # d # cs) =
     (if is_high_surrogate c then
        (if is_low_surrogate d
         then (0x10000 + (unat c - 0xD800) * 1024 + (unat d - 0xDC00)) # scalar_values cs
         else 0xFFFD # scalar_values (d # cs))
      else if is_low_surrogate c then 0xFFFD # scalar_values (d # cs)
      else unat c # scalar_values (d # cs))"

definition encode :: "jsstring \<Rightarrow> bytes" where
  "encode s = concat (map utf8_of_scalar (scalar_values s))"

subsection \<open>SHA-256, the digest behind \<open>crypto.subtle.digest('SHA-256', data)\<close>\<close>

text \<open>
  The digest is a platform primitive. It is written out after FIPS 180-4 so that the
  hasher below is a closed, executable definition: padding to 64-byte blocks, a 64-word
  message schedule per block, 64 rounds on eight 32-bit working variables.
\<close>

type_synonym w32 = "32 word"
type_synonym sha_state = "w32 \<times> w32 \<times> w32 \<times> w32 \<times> w32 \<times> w32 \<times> w32 \<times> w32"

definition sha_round_constants :: "w32 list" where
  "sha_round_constants =
    [1116352408, 1899447441, 3049323471, 3921009573, 961987163, 1508970993,
     2453635748, 2870763221, 3624381080, 310598401, 607225278, 1426881987,
     1925078388, 2162078206, 2614888103, 3248222580, 3835390401, 4022224774,
     264347078, 604807628, 770255983, 1249150122, 1555081692, 1996064986,
     2554220882, 2821834349, 2952996808, 3210313671, 3336571891, 3584528711,
     113926993, 338241895, 666307205, 773529912, 1294757372, 1396182291,
     1695183700, 1986661051, 2177026350, 2456956037, 2730485921, 2820302411,
     3259730800, 3345764771, 3516065817, 3600352804, 4094571909, 275423344,
     430227734, 506948616, 659060556, 883997877, 958139571, 1322822218,
     1537002063, 1747873779, 1955562222, 2024104815, 2227730452, 2361852424,
     2428436474, 2756734187, 3204031479, 3329325298]"

definition sha_initial :: sha_state where
  "sha_initial = (1779033703, 3144134277, 1013904242, 2773480762,
                  1359893119, 2600822924, 528734635, 1541459225)"

definition sha_pad :: "bytes \<Rightarrow> bytes" where
  "sha_pad m =
     m @ [0x80] @ replicate ((64 - (length m + 9) mod 64) mod 64) 0
       @ map (\<lambda>i. of_nat ((8 * length m) div 2 ^ (8 * (7 - i)) mod 256)) [0..<8]"

fun be_words :: "bytes \<Rightarrow> w32 list" where
  "be_words (a # b # c # d # rest) =
     (push_bit 24 (ucast a) OR push_bit 16 (ucast b) OR push_bit 8 (ucast c) OR ucast d)
       # be_words rest"
| "be_words _ = []"

definition be_bytes :: "w32 \<Rightarrow> bytes" where
  "be_bytes w = [ucast (drop_bit 24 w), ucast (drop_bit 16 w), ucast (drop_bit 8 w), ucast w]"

definition small_sigma0 :: "w32 \<Rightarrow> w32" where
  "small_sigma0 x = word_rotr 7 x XOR word_rotr 18 x XOR drop_bit 3 x"

definition small_sigma1 :: "w32 \<Rightarrow> w32" where
  "small_sigma1 x = word_rotr 17 x XOR word_rotr 19 x XOR drop_bit 10 x"

definition big_sigma0 :: "w32 \<Rightarrow> w32" where
  "big_sigma0 x = word_rotr 2 x XOR word_rotr 13 x XOR word_rotr 22 x"

definition big_sigma1 :: "w32 \<Rightarrow> w32" where
  "big_sigma1 x = word_rotr 6 x XOR word_rotr 11 x XOR word_rotr 25 x"

fun sha_schedule :: "nat \<Rightarrow> w32 list \<Rightarrow> w32 list" where
  "sha_schedule 0 w = w"
| "sha_schedule (Suc n) w =
     (let t = length w
      in sha_schedule n
           (w @ [small_sigma1 (w ! (t - 2)) + w ! (t - 7)
                 + small_sigma0 (w ! (t - 15)) + w ! (t - 16)]))"

fun sha_round :: "sha_state \<Rightarrow> w32 \<times> w32 \<Rightarrow> sha_state" where
  "sha_round (a, b, c, d, e, f, g, h) (k, w) =
     (let t1 = h + big_sigma1 e + ((e AND f) XOR (NOT e AND g)) + k + w;
          t2 = big_sigma0 a + ((a AND b) XOR (a AND c) XOR (b AND c))
      in (t1 + t2, a, b, c, d + t1, e, f, g))"

fun sha_add :: "sha_state \<Rightarrow> sha_state \<Rightarrow> sha_state" where
  "sha_add (a, b, c, d, e, f, g, h) (a', b', c', d', e', f', g', h') =
     (a + a', b + b', c + c', d + d', e + e', f + f', g + g', h + h')"

definition sha_compress :: "sha_state \<Rightarrow> bytes \<Rightarrow> sha_state" where
  "sha_compress st block =
     sha_add st (foldl sha_round st (zip sha_round_constants (sha_schedule 48 (be_words block))))"

function sha_blocks :: "bytes \<Rightarrow> bytes list" where
  "sha_blocks m = (if m = [] then [] else take 64 m # sha_blocks (drop 64 m))"
  by pat_completeness auto
termination
  by (relation "measure length") auto

fun sha_output :: "sha_state \<Rightarrow> bytes" where
  "sha_output (a, b, c, d, e, f, g, h) = concat (map be_bytes [a, b, c, d, e, f, g, h])"

definition sha256 :: "bytes \<Rightarrow> bytes" where
  "sha256 m = sha_output (foldl sha_compress sha_initial (sha_blocks (sha_pad m)))"

section \<open>src/lib/utils.ts\<close>

subsection \<open>generateToken\<close>

text \<open>
  \<open>crypto.getRandomValues\<close> fills a fresh \<open>Uint8Array(length)\<close>; the random source is
  the function \<open>rnd\<close> giving the byte drawn at each index. Each byte selects a character
  of the 62-character alphabet by \<open>randomValues[i] % chars.length\<close>.
\<close>

definition token_chars :: jsstring where
  "token_chars = lit ''ABCDEFGHIJKLMNOPQRSTUVWXYZabcdefghijklmnopqrstuvwxyz0123456789''"

definition generateToken :: "nat \<Rightarrow> (nat \<Rightarrow> 8 word) \<Rightarrow> jsstring" where
  "generateToken len rnd =
     (let randomValues = map rnd [0..<len]
      in foldl (\<lambda>result i. result @ [token_chars ! (unat (randomValues ! i) mod length token_chars)])
           [] [0..<len])"

subsection \<open>hashPassword and verifyPassword\<close>

definition hex_digit :: "nat \<Rightarrow> 16 word" where
  "hex_digit n = lit ''0123456789abcdef'' ! n"

text \<open>\<open>b.toString(16)\<close> for a byte \<open>b\<close>, and \<open>padStart(2, '0')\<close>.\<close>

definition toString16 :: "8 word \<Rightarrow> jsstring" where
  "toString16 b =
     (if unat b < 16 then [hex_digit (unat b)]
      else [hex_digit (unat b div 16), hex_digit (unat b mod 16)])"

definition padStart2 :: "jsstring \<Rightarrow> jsstring" where
  "padStart2 s = replicate (2 - length s) ZERO_CHAR @ s"

definition hex_of_bytes :: "bytes \<Rightarrow> jsstring" where
  "hex_of_bytes hashArray = concat (map (\<lambda>b. padStart2 (toString16 b)) hashArray)"

text \<open>
  \<open>hashPassword\<close> draws its salt with \<open>generateToken(16)\<close>; the unsalted digest it
  computes first is not used in the result.
\<close>

definition hashPassword :: "(nat \<Rightarrow> 8 word) \<Rightarrow> jsstring \<Rightarrow> jsstring" where
  "hashPassword rnd password =
     (let salt = generateToken 16 rnd;
          saltedPassword = salt @ password;
          saltedHashHex = hex_of_bytes (sha256 (encode saltedPassword))
      in salt @ [COLON] @ saltedHashHex)"

text \<open>\<open>s.split(':')\<close>: the pieces between the separators, at least one piece.\<close>

fun split_js :: "16 word \<Rightarrow> jsstring \<Rightarrow> jsstring list" where
  "split_js sep [] = [[]]"
| "split_js sep (c # cs) =
     (if c = sep then [] # split_js sep cs
      else (c # hd (split_js sep cs)) # tl (split_js sep cs))"

text \<open>
  The destructuring \<open>[salt, storedHash] = hash.split(':')\<close> binds the first two pieces,
  \<open>undefined\<close> (here \<open>None\<close>) where a piece is missing; \<open>!x\<close> holds of \<open>undefined\<close>
  and of the empty string.
\<close>

definition nth_opt :: "'a list \<Rightarrow> nat \<Rightarrow> 'a option" where
  "nth_opt xs i = (if i < length xs then Some (xs ! i) else None)"

definition falsy :: "jsstring option \<Rightarrow> bool" where
  "falsy s = (case s of None \<Rightarrow> True | Some t \<Rightarrow> t = [])"

definition compare_loop :: "jsstring \<Rightarrow> jsstring \<Rightarrow> w32" where
  "compare_loop computedHash storedHash =
     foldl (\<lambda>result i. result OR (ucast (computedHash ! i) XOR ucast (storedHash ! i)))
       0 [0..<length computedHash]"

definition verifyPassword :: "jsstring \<Rightarrow> jsstring \<Rightarrow> bool" where
  "verifyPassword hash password =
     (let parts = split_js COLON hash;
          salt = nth_opt parts 0;
          storedHash = nth_opt parts 1
      in if falsy salt \<or> falsy storedHash then False
         else
           let saltedPassword = the salt @ password;
               computedHash = hex_of_bytes (sha256 (encode saltedPassword))
           in if length computedHash \<noteq> length (the storedHash) then False
              else compare_loop computedHash (the storedHash) = 0)"

subsection \<open>generateUserId\<close>

definition digit_char :: "nat \<Rightarrow> char" where
  "digit_char n = ''0123456789'' ! n"

function decimal :: "nat \<Rightarrow> string" where
  "decimal n =
     (if n < 10 then [digit_char n] else decimal (n div 10) @ [digit_char (n mod 10)])"
  by pat_completeness auto
termination
  by (relation "measure id") auto

definition number_to_string :: "int \<Rightarrow> string" where
  "number_to_string i = (if i < 0 then ''-'' @ decimal (nat (- i)) else decimal (nat i))"

text \<open>\<open>`user_${Date.now()}_${generateToken(16)}`\<close>, with the clock reading \<open>now\<close>.\<close>

definition generateUserId :: "int \<Rightarrow> (nat \<Rightarrow> 8 word) \<Rightarrow> jsstring" where
  "generateUserId now rnd =
     lit ''user_'' @ lit (number_to_string now) @ lit ''_'' @ generateToken 16 rnd"

section \<open>src/lib/resend.ts\<close>

text \<open>
  \<open>sendEmail\<close> posts to the mail service with \<open>fetch\<close>. What the network answers is
  an input of the model: a response with its status (\<open>response.ok\<close> is a status from 200
  to 299), or a thrown exception. The result is \<open>{success: true}\<close> or
  \<open>{success: false, error}\<close>.
\<close>

datatype fetch_result = FetchResponse nat | FetchThrows

datatype email_result = EmailSuccess | EmailFailure string

definition sendEmail :: "fetch_result \<Rightarrow> email_result" where
  "sendEmail outcome =
     (case outcome of
        FetchResponse status \<Rightarrow>
          if \<not> (200 \<le> status \<and> status \<le> 299)
          then EmailFailure (''Failed to send email: '' @ decimal status)
          else EmailSuccess
      | FetchThrows \<Rightarrow> EmailFailure ''Failed to send email'')"

section \<open>The store (migrations/0001\_initial\_schema.sql)\<close>

text \<open>
  Four tables, each a list of rows in insertion order. \<open>INTEGER\<close> columns are
  \<open>int\<close>, \<open>TEXT\<close> columns hold the strings bound by the handlers.
\<close>

record user_row =
  u_id :: jsstring
  u_email :: jsstring
  u_password_hash :: jsstring
  u_verified :: int
  u_created_at :: int

record token_row =
  t_token :: jsstring
  t_user_id :: jsstring
  t_expires_at :: int

record session_row =
  s_id :: jsstring
  s_user_id :: jsstring
  s_expires_at :: int

record message_row =
  m_id :: int
  m_user_id :: jsstring
  m_message :: jsstring
  m_created_at :: int

record db =
  users :: "user_row list"
  email_verification_tokens :: "token_row list"
  sessions :: "session_row list"
  messages :: "message_row list"

text \<open>\<open>SELECT ... FROM users WHERE email = ?\<close> with \<open>.first()\<close>.\<close>

definition select_user_by_email :: "db \<Rightarrow> jsstring \<Rightarrow> user_row option" where
  "select_user_by_email d email = find (\<lambda>u. u_email u = email) (users d)"

definition select_user_by_id :: "db \<Rightarrow> jsstring \<Rightarrow> user_row option" where
  "select_user_by_id d uid = find (\<lambda>u. u_id u = uid) (users d)"

text \<open>
  \<open>INSERT INTO users\<close>: \<open>id\<close> is the primary key and \<open>email\<close> is \<open>UNIQUE\<close>; a
  violated constraint makes \<open>run()\<close> throw, here \<open>None\<close>.
\<close>

definition insert_user :: "db \<Rightarrow> user_row \<Rightarrow> db option" where
  "insert_user d row =
     (if list_ex (\<lambda>u. u_id u = u_id row \<or> u_email u = u_email row) (users d) then None
      else Some (d\<lparr>users := users d @ [row]\<rparr>))"

text \<open>\<open>UPDATE users SET verified = 1 WHERE id = ?\<close>.\<close>

definition update_user_verified :: "db \<Rightarrow> jsstring \<Rightarrow> db" where
  "update_user_verified d uid =
     d\<lparr>users := map (\<lambda>u. if u_id u = uid then u\<lparr>u_verified := 1\<rparr> else u) (users d)\<rparr>"

text \<open>
  \<open>INSERT INTO email_verification_tokens\<close>: \<open>token\<close> is the primary key and
  \<open>user_id\<close> references \<open>users(id)\<close>.
\<close>

definition insert_token :: "db \<Rightarrow> token_row \<Rightarrow> db option" where
  "insert_token d row =
     (if list_ex (\<lambda>t. t_token t = t_token row) (email_verification_tokens d)
         \<or> \<not> list_ex (\<lambda>u. u_id u = t_user_id row) (users d)
      then None
      else Some (d\<lparr>email_verification_tokens := email_verification_tokens d @ [row]\<rparr>))"

definition select_token :: "db \<Rightarrow> jsstring \<Rightarrow> token_row option" where
  "select_token d token = find (\<lambda>t. t_token t = token) (email_verification_tokens d)"

definition delete_token :: "db \<Rightarrow> jsstring \<Rightarrow> db" where
  "delete_token d token =
     d\<lparr>email_verification_tokens := filter (\<lambda>t. t_token t \<noteq> token) (email_verification_tokens d)\<rparr>"

text \<open>
  \<open>INSERT INTO messages\<close>: \<open>id\<close> is \<open>AUTOINCREMENT\<close> (one more than the largest id
  so far; no message is ever deleted), \<open>user_id\<close> references \<open>users(id)\<close>.
\<close>

definition next_message_id :: "db \<Rightarrow> int" where
  "next_message_id d = foldl max 0 (map m_id (messages d)) + 1"

definition insert_message :: "db \<Rightarrow> jsstring \<Rightarrow> jsstring \<Rightarrow> int \<Rightarrow> db option" where
  "insert_message d uid text createdAt =
     (if \<not> list_ex (\<lambda>u. u_id u = uid) (users d) then None
      else Some (d\<lparr>messages := messages d @
             [\<lparr>m_id = next_message_id d, m_user_id = uid, m_message = text,
               m_created_at = createdAt\<rparr>]\<rparr>))"

section \<open>The session library (src/lib/auth.ts)\<close>

text \<open>
  Modelled from the spec: the Lucia session library, which \<open>initializeLucia\<close> configures
  over the tables \<open>users\<close> and \<open>sessions\<close> and which is not part of the sources. Its
  three operations follow the session manager contract: \<open>createSession\<close> persists a row
  with a fresh identifier and an expiry a fixed duration from now, \<open>validateSession\<close>
  treats an absent or expired session as invalid and deletes the expired row,
  \<open>invalidateSession\<close> deletes the row if present. The identifier the library draws and
  the clock it reads are inputs; the insert obeys the primary key and the foreign key of the
  \<open>sessions\<close> table. The library writes no other table.
\<close>

record session_env =
  sid_new :: jsstring
  sid_now :: int

definition session_ttl :: int where
  "session_ttl = 30 * 24 * 60 * 60 * 1000"

definition createSession :: "session_env \<Rightarrow> db \<Rightarrow> jsstring \<Rightarrow> (session_row \<times> db) option" where
  "createSession senv d userId =
     (let session = \<lparr>s_id = sid_new senv, s_user_id = userId,
                      s_expires_at = sid_now senv + session_ttl\<rparr>
      in if list_ex (\<lambda>s. s_id s = s_id session) (sessions d)
            \<or> \<not> list_ex (\<lambda>u. u_id u = userId) (users d)
         then None
         else Some (session, d\<lparr>sessions := sessions d @ [session]\<rparr>))"

definition invalidateSession :: "db \<Rightarrow> jsstring \<Rightarrow> db" where
  "invalidateSession d sessionId = d\<lparr>sessions := filter (\<lambda>s. s_id s \<noteq> sessionId) (sessions d)\<rparr>"

definition validateSession :: "db \<Rightarrow> jsstring \<Rightarrow> int \<Rightarrow> (session_row \<times> user_row) option \<times> db" where
  "validateSession d sessionId now =
     (case find (\<lambda>s. s_id s = sessionId) (sessions d) of
        None \<Rightarrow> (None, d)
      | Some session \<Rightarrow>
          if \<not> now < s_expires_at session then (None, invalidateSession d sessionId)
          else (case select_user_by_id d (s_user_id session) of
                  None \<Rightarrow> (None, d)
                | Some user \<Rightarrow> (Some (session, user), d)))"

section \<open>String and number primitives used by the handlers\<close>

text \<open>
  White space and line terminators of ECMAScript, as removed by \<open>String.prototype.trim\<close>
  and skipped by \<open>parseInt\<close>.
\<close>

definition is_white_space :: "16 word \<Rightarrow> bool" where
  "is_white_space c =
     (unat c \<in> {0x09, 0x0A, 0x0B, 0x0C, 0x0D, 0x20, 0xA0, 0x1680, 0x2028, 0x2029, 0x202F,
                 0x205F, 0x3000, 0xFEFF}
      \<or> (0x2000 \<le> unat c \<and> unat c \<le> 0x200A))"

definition trim :: "jsstring \<Rightarrow> jsstring" where
  "trim s = rev (dropWhile is_white_space (rev (dropWhile is_white_space s)))"

text \<open>
  A JavaScript number as the handlers meet it: an integer or \<open>NaN\<close>. \<open>parseInt(s)\<close>
  without a radix skips leading white space, reads a sign, reads the prefix \<open>0x\<close> or
  \<open>0X\<close> as radix 16, and takes the longest run of digits of the radix; with no digit the
  result is \<open>NaN\<close>. (The platform rounds results beyond \<open>2^53\<close> to a double.)
\<close>

datatype js_number = NaN | Num int

definition digit_value :: "16 word \<Rightarrow> nat option" where
  "digit_value c =
     (let n = unat c
      in if 48 \<le> n \<and> n \<le> 57 then Some (n - 48)
         else if 97 \<le> n \<and> n \<le> 122 then Some (n - 87)
         else if 65 \<le> n \<and> n \<le> 90 then Some (n - 55)
         else None)"

definition is_digit_of :: "nat \<Rightarrow> 16 word \<Rightarrow> bool" where
  "is_digit_of radix c = (case digit_value c of None \<Rightarrow> False | Some v \<Rightarrow> v < radix)"

definition digits_value :: "nat \<Rightarrow> jsstring \<Rightarrow> int" where
  "digits_value radix ds = foldl (\<lambda>acc c. acc * int radix + int (the (digit_value c))) 0 ds"

definition parseInt :: "jsstring \<Rightarrow> js_number" where
  "parseInt s =
     (let t = dropWhile is_white_space s;
          negative = (t \<noteq> [] \<and> hd t = 45);
          u = (if t \<noteq> [] \<and> (hd t = 43 \<or> hd t = 45) then tl t else t);
          hex = (2 \<le> length u \<and> u ! 0 = 48 \<and> (u ! 1 = 120 \<or> u ! 1 = 88));
          radix = (if hex then 16 else 10);
          ds = takeWhile (is_digit_of radix) (if hex then drop 2 u else u)
      in if ds = [] then NaN
         else Num ((if negative then - 1 else 1) * digits_value radix ds))"

section \<open>src/index.tsx: the request handlers\<close>

text \<open>
  A handler takes the store and the parsed request and returns the response, the cookie it
  sets and the store it leaves. JSON bodies are typed: a field is a string or absent
  (\<open>None\<close>); \<open>!x\<close> is \<open>falsy x\<close>. A response \<open>c.json({ok, error | message}, status)\<close>
  is \<open>Json status ok text\<close>.
\<close>

record message_view =
  v_id :: int
  v_message :: jsstring
  v_email :: jsstring
  v_createdAt :: int

datatype response =
    Json nat bool string
  | JsonUser jsstring jsstring int
  | JsonMessages "message_view list"
  | Html string
  | Redirect string

datatype cookie = SessionCookie jsstring | BlankCookie

record result =
  resp :: response
  set_cookie :: "cookie option"
  store :: db

definition reply :: "response \<Rightarrow> db \<Rightarrow> result" where
  "reply r d = \<lparr>resp = r, set_cookie = None, store = d\<rparr>"

subsection \<open>POST /api/register\<close>

text \<open>
  The clock is read three times (in \<open>generateUserId\<close>, for \<open>createdAt\<close> and for
  \<open>expiresAt\<close>) and random bytes are drawn three times (user id, salt, token). The
  verification URL and the mail body only travel to the mail service.
\<close>

record register_env =
  uid_now :: int
  uid_rnd :: "nat \<Rightarrow> 8 word"
  salt_rnd :: "nat \<Rightarrow> 8 word"
  created_now :: int
  token_rnd :: "nat \<Rightarrow> 8 word"
  token_now :: int
  RESEND_API_KEY :: "jsstring option"
  fetch_outcome :: fetch_result

definition register_handler :: "register_env \<Rightarrow> db \<Rightarrow> jsstring option \<Rightarrow> jsstring option \<Rightarrow> result" where
  "register_handler env d email password =
     (if falsy email \<or> falsy password then
        reply (Json 400 False ''Email and password are required'') d
      else if length (the password) < 8 then
        reply (Json 400 False ''Password must be at least 8 characters'') d
      else
        case select_user_by_email d (the email) of
          Some existingUser \<Rightarrow> reply (Json 400 False ''Email already registered'') d
        | None \<Rightarrow>
            let userId = generateUserId (uid_now env) (uid_rnd env);
                passwordHash = hashPassword (salt_rnd env) (the password);
                createdAt = created_now env
            in case insert_user d \<lparr>u_id = userId, u_email = the email,
                                     u_password_hash = passwordHash, u_verified = 0,
                                     u_created_at = createdAt\<rparr> of
                 None \<Rightarrow> reply (Json 500 False ''Registration failed'') d
               | Some d1 \<Rightarrow>
                   let token = generateToken 48 (token_rnd env);
                       expiresAt = token_now env + 60 * 60 * 1000
                   in case insert_token d1 \<lparr>t_token = token, t_user_id = userId,
                                             t_expires_at = expiresAt\<rparr> of
                        None \<Rightarrow> reply (Json 500 False ''Registration failed'') d1
                      | Some d2 \<Rightarrow>
                          if falsy (RESEND_API_KEY env) then
                            reply (Json 500 False ''Email service is not configured'') d2
                          else
                            case sendEmail (fetch_outcome env) of
                              EmailFailure err \<Rightarrow> reply (Json 500 False err) d2
                            | EmailSuccess \<Rightarrow>
                                reply (Json 200 True ''Check your email for verification link'') d2)"

subsection \<open>GET /verify\<close>

definition verify_handler :: "session_env \<Rightarrow> int \<Rightarrow> db \<Rightarrow> jsstring option \<Rightarrow> result" where
  "verify_handler senv now d token =
     (if falsy token then reply (Html ''<h1>Invalid verification link</h1>'') d
      else
        case select_token d (the token) of
          None \<Rightarrow> reply (Html ''<h1>Invalid or expired verification link</h1>'') d
        | Some tokenData \<Rightarrow>
            if t_expires_at tokenData < now then
              reply (Html ''<h1>Verification link has expired</h1>'') (delete_token d (the token))
            else
              let d1 = update_user_verified d (t_user_id tokenData);
                  d2 = delete_token d1 (the token)
              in case createSession senv d2 (t_user_id tokenData) of
                   None \<Rightarrow> reply (Html ''<h1>Verification failed</h1>'') d2
                 | Some (session, d3) \<Rightarrow>
                     \<lparr>resp = Redirect ''/chat'', set_cookie = Some (SessionCookie (s_id session)),
                      store = d3\<rparr>)"

text \<open>
  The handler has gone past the token checks when it answers with the redirect to the chat,
  or with the failure page of its \<open>catch\<close> block (the session could not be stored after
  the user was marked verified and the token deleted).
\<close>

definition token_accepted :: "result \<Rightarrow> bool" where
  "token_accepted r =
     (resp r = Redirect ''/chat'' \<or> resp r = Html ''<h1>Verification failed</h1>'')"

subsection \<open>POST /api/login\<close>

text \<open>
  The handler is written over the password check it calls, so that what it does with the
  check can be stated; \<open>login_handler\<close> is the handler of the source, which calls
  \<open>verifyPassword\<close>.
\<close>

definition login_with ::
  "(jsstring \<Rightarrow> jsstring \<Rightarrow> bool) \<Rightarrow> session_env \<Rightarrow> db \<Rightarrow> jsstring option \<Rightarrow> jsstring option \<Rightarrow> result" where
  "login_with check senv d email password =
     (if falsy email \<or> falsy password then
        reply (Json 400 False ''Email and password are required'') d
      else
        case select_user_by_email d (the email) of
          None \<Rightarrow> reply (Json 401 False ''Invalid email or password'') d
        | Some user \<Rightarrow>
            if u_verified user = 0 then
              reply (Json 401 False ''Please verify your email first'') d
            else
              let isValidPassword = check (u_password_hash user) (the password)
              in if \<not> isValidPassword then
                   reply (Json 401 False ''Invalid email or password'') d
                 else
                   case createSession senv d (u_id user) of
                     None \<Rightarrow> reply (Json 500 False ''Login failed'') d
                   | Some (session, d1) \<Rightarrow>
                       \<lparr>resp = Json 200 True ''Login successful'',
                        set_cookie = Some (SessionCookie (s_id session)), store = d1\<rparr>)"

definition login_handler :: "session_env \<Rightarrow> db \<Rightarrow> jsstring option \<Rightarrow> jsstring option \<Rightarrow> result" where
  "login_handler = login_with verifyPassword"

subsection \<open>POST /api/logout and GET /api/user\<close>

definition logout_handler :: "db \<Rightarrow> jsstring option \<Rightarrow> result" where
  "logout_handler d sessionId =
     (let d1 = (if \<not> falsy sessionId then invalidateSession d (the sessionId) else d)
      in \<lparr>resp = Json 200 True ''Logout successful'', set_cookie = Some BlankCookie, store = d1\<rparr>)"

definition user_handler :: "int \<Rightarrow> db \<Rightarrow> jsstring option \<Rightarrow> result" where
  "user_handler session_now d sessionId =
     (if falsy sessionId then reply (Json 401 False ''Not authenticated'') d
      else
        case validateSession d (the sessionId) session_now of
          (None, d1) \<Rightarrow> reply (Json 401 False ''Invalid session'') d1
        | (Some (session, user), d1) \<Rightarrow>
            reply (JsonUser (u_id user) (u_email user) (u_verified user)) d1)"

subsection \<open>POST /api/messages\<close>

definition post_message_handler :: "int \<Rightarrow> int \<Rightarrow> db \<Rightarrow> jsstring option \<Rightarrow> jsstring option \<Rightarrow> result" where
  "post_message_handler session_now now d sessionId message =
     (if falsy sessionId then reply (Json 401 False ''Not authenticated'') d
      else
        case validateSession d (the sessionId) session_now of
          (None, d1) \<Rightarrow> reply (Json 401 False ''Invalid session'') d1
        | (Some (session, user), d1) \<Rightarrow>
            if falsy message \<or> length (trim (the message)) = 0 then
              reply (Json 400 False ''Message cannot be empty'') d1
            else if length (the message) > 1000 then
              reply (Json 400 False ''Message is too long (max 1000 characters)'') d1
            else
              let createdAt = now
              in case insert_message d1 (u_id user) (trim (the message)) createdAt of
                   None \<Rightarrow> reply (Json 500 False ''Failed to post message'') d1
                 | Some d2 \<Rightarrow> reply (Json 200 True ''Message posted'') d2)"

subsection \<open>GET /api/messages\<close>

text \<open>
  The query joins each message with its author, keeps the rows with
  \<open>created_at > ?\<close>, orders them by \<open>created_at\<close> (rows of equal time stay in table
  order) and keeps the first 100. A bound \<open>NaN\<close> compares as SQL \<open>NULL\<close>: the
  comparison holds of no row.
\<close>

definition sql_greater :: "int \<Rightarrow> js_number \<Rightarrow> bool" where
  "sql_greater x bound = (case bound of NaN \<Rightarrow> False | Num n \<Rightarrow> x > n)"

definition joined_messages :: "db \<Rightarrow> (message_row \<times> user_row) list" where
  "joined_messages d =
     concat (map (\<lambda>m. map (\<lambda>u. (m, u)) (filter (\<lambda>u. m_user_id m = u_id u) (users d))) (messages d))"

definition select_messages :: "db \<Rightarrow> js_number \<Rightarrow> (message_row \<times> user_row) list" where
  "select_messages d afterTimestamp =
     take 100 (sort_key (\<lambda>(m, u). m_created_at m)
       (filter (\<lambda>(m, u). sql_greater (m_created_at m) afterTimestamp) (joined_messages d)))"

definition view_of :: "message_row \<times> user_row \<Rightarrow> message_view" where
  "view_of msg = \<lparr>v_id = m_id (fst msg), v_message = m_message (fst msg),
                  v_email = u_email (snd msg), v_createdAt = m_created_at (fst msg)\<rparr>"

definition list_messages :: "db \<Rightarrow> js_number \<Rightarrow> message_view list" where
  "list_messages d afterTimestamp = map view_of (select_messages d afterTimestamp)"

definition get_messages_handler :: "db \<Rightarrow> jsstring option \<Rightarrow> result" where
  "get_messages_handler d after =
     (let afterTimestamp = (if \<not> falsy after then parseInt (the after) else Num 0)
      in reply (JsonMessages (list_messages d afterTimestamp)) d)"

subsection \<open>The server as a transition system\<close>

datatype request =
    Register register_env "jsstring option" "jsstring option"
  | VerifyEmail session_env int "jsstring option"
  | Login session_env "jsstring option" "jsstring option"
  | Logout "jsstring option"
  | CurrentUser int "jsstring option"
  | PostMessage int int "jsstring option" "jsstring option"
  | GetMessages "jsstring option"

fun handle :: "request \<Rightarrow> db \<Rightarrow> result" where
  "handle (Register env email password) d = register_handler env d email password"
| "handle (VerifyEmail senv now token) d = verify_handler senv now d token"
| "handle (Login senv email password) d = login_handler senv d email password"
| "handle (Logout sessionId) d = logout_handler d sessionId"
| "handle (CurrentUser session_now sessionId) d = user_handler session_now d sessionId"
| "handle (PostMessage session_now now sessionId message) d =
     post_message_handler session_now now d sessionId message"
| "handle (GetMessages after) d = get_messages_handler d after"

fun run :: "request list \<Rightarrow> db \<Rightarrow> db" where
  "run [] d = d"
| "run (r # rs) d = run rs (store (handle r d))"

definition empty_db :: db where
  "empty_db = \<lparr>users = [], email_verification_tokens = [], sessions = [], messages = []\<rparr>"

section \<open>Vocabulary of the statements\<close>

text \<open>Rows the register handler writes.\<close>

definition new_user :: "register_env \<Rightarrow> jsstring \<Rightarrow> jsstring \<Rightarrow> user_row" where
  "new_user env email password =
     \<lparr>u_id = generateUserId (uid_now env) (uid_rnd env), u_email = email,
      u_password_hash = hashPassword (salt_rnd env) password, u_verified = 0,
      u_created_at = created_now env\<rparr>"

definition new_token :: "register_env \<Rightarrow> token_row" where
  "new_token env =
     \<lparr>t_token = generateToken 48 (token_rnd env),
      t_user_id = generateUserId (uid_now env) (uid_rnd env),
      t_expires_at = token_now env + 60 * 60 * 1000\<rparr>"

text \<open>The row the post handler writes.\<close>

definition posted_row :: "db \<Rightarrow> user_row \<Rightarrow> jsstring \<Rightarrow> int \<Rightarrow> message_row" where
  "posted_row d user message now =
     \<lparr>m_id = next_message_id d, m_user_id = u_id user, m_message = trim message,
      m_created_at = now\<rparr>"

text \<open>
  The constraints of the schema that the message query relies on: \<open>users.id\<close> is a
  primary key, and \<open>messages.user_id\<close> references it.
\<close>

definition schema_ok :: "db \<Rightarrow> bool" where
  "schema_ok d =
     (distinct (map u_id (users d))
      \<and> (\<forall>m \<in> set (messages d). m_user_id m \<in> set (map u_id (users d))))"

definition author :: "db \<Rightarrow> message_row \<Rightarrow> user_row" where
  "author d m = the (select_user_by_id d (m_user_id m))"

text \<open>
  What every operation keeps of the users table: the rows stay in place with their ids, and
  a verified flag that is set stays set.
\<close>

definition keeps_verified :: "user_row list \<Rightarrow> user_row list \<Rightarrow> bool" where
  "keeps_verified us us' =
     (length us \<le> length us'
      \<and> (\<forall>i < length us. u_id (us' ! i) = u_id (us ! i)
             \<and> (u_verified (us ! i) \<noteq> 0 \<longrightarrow> u_verified (us' ! i) \<noteq> 0)))"

section \<open>Sample inputs\<close>

definition fixed_rnd :: "nat \<Rightarrow> 8 word" where
  "fixed_rnd i = 0"

definition salt_A :: jsstring where
  "salt_A = lit ''AAAAAAAAAAAAAAAA''"

definition lone_password_a :: jsstring where
  "lone_password_a = 0xD800 # lit ''aaaaaaa''"

definition lone_password_b :: jsstring where
  "lone_password_b = 0xD801 # lit ''aaaaaaa''"

definition alice :: user_row where
  "alice = \<lparr>u_id = lit ''user_1700000000000_AAAAAAAAAAAAAAAA'', u_email = lit ''a@x.com'',
            u_password_hash = hashPassword fixed_rnd (lit ''longpassword''), u_verified = 0,
            u_created_at = 1700000000000\<rparr>"

definition alice_token :: token_row where
  "alice_token = \<lparr>t_token = lit ''tokenAAAA'', t_user_id = u_id alice,
                  t_expires_at = 1700003600000\<rparr>"

definition pending_db :: db where
  "pending_db = \<lparr>users = [alice], email_verification_tokens = [alice_token], sessions = [],
                 messages = []\<rparr>"

definition sample_senv :: session_env where
  "sample_senv = \<lparr>sid_new = lit ''session1'', sid_now = 1700003600000\<rparr>"

definition sample_renv :: register_env where
  "sample_renv = \<lparr>uid_now = 1700000000000, uid_rnd = fixed_rnd, salt_rnd = fixed_rnd,
                   created_now = 1700000000000, token_rnd = fixed_rnd,
                   token_now = 1700000000000, RESEND_API_KEY = None,
                   fetch_outcome = FetchResponse 200\<rparr>"

text \<open>The rows of seed.sql, loaded at the time \<open>1700000000000\<close>.\<close>

definition seed_user :: user_row where
  "seed_user = \<lparr>u_id = lit ''test-user-1'', u_email = lit ''test@example.com'',
     u_password_hash =
       lit ''$argon2id$v=19$m=19456,t=2,p=1$aAbBcCdDeEfFgGhHiIjJkK$LlMmNnOoPpQqRrSsTtUuVvWwXxYyZz0'',
     u_verified = 1, u_created_at = 1700000000000\<rparr>"

definition seeded_db :: db where
  "seeded_db = \<lparr>users = [seed_user], email_verification_tokens = [], sessions = [],
     messages =
       [\<lparr>m_id = 1, m_user_id = lit ''test-user-1'', m_message = lit ''Welcome to the chat app!'',
         m_created_at = 1700000000000\<rparr>,
        \<lparr>m_id = 2, m_user_id = lit ''test-user-1'', m_message = lit ''This is a sample message.'',
         m_created_at = 1700000001000\<rparr>]\<rparr>"

definition reject_all :: "jsstring \<Rightarrow> jsstring \<Rightarrow> bool" where
  "reject_all hash password = False"

text \<open>The seeded store with one session of the seeded user.\<close>

definition seed_session :: session_row where
  "seed_session = \<lparr>s_id = lit ''session0'', s_user_id = lit ''test-user-1'',
                   s_expires_at = 1702592000000\<rparr>"

definition chat_db :: db where
  "chat_db = seeded_db\<lparr>sessions := [seed_session]\<rparr>"

text \<open>A store with 101 messages of the seeded user, one per millisecond.\<close>

definition numbered_message :: "nat \<Rightarrow> message_row" where
  "numbered_message i =
     \<lparr>m_id = int i, m_user_id = lit ''test-user-1'', m_message = lit ''hi'',
      m_created_at = 1700000000000 + int i\<rparr>"

definition crowded_db :: db where
  "crowded_db = \<lparr>users = [seed_user], email_verification_tokens = [], sessions = [],
                  messages = map numbered_message [1..<102]\<rparr>"

text \<open>A message of 1000 letters followed by one space.\<close>

definition padded_message :: jsstring where
  "padded_message = replicate 1000 97 @ [32]"

section \<open>The credential hasher\<close>

subsection \<open>Tokens and hexadecimal digests contain no colon\<close>

lemma length_token_chars: "length token_chars = 62"
  by (simp add: token_chars_def lit_def)

lemma colon_notin_token_chars: "COLON \<notin> set token_chars"
  by (simp add: token_chars_def lit_def COLON_def)

lemma generateToken_map:
  "generateToken len rnd = map (\<lambda>i. token_chars ! (unat (rnd i) mod length token_chars)) [0..<len]"
proof -
  have "foldl (\<lambda>result i. result @ [f i]) acc xs = acc @ map f xs" for f :: "nat \<Rightarrow> 16 word" and acc xs
    by (induction xs arbitrary: acc) simp_all
  from this [of "\<lambda>i. token_chars ! (unat (map rnd [0..<len] ! i) mod length token_chars)" "[]" "[0..<len]"]
  show ?thesis
    by (simp add: generateToken_def Let_def cong: map_cong)
qed

lemma length_generateToken: "length (generateToken len rnd) = len"
  by (simp add: generateToken_map)

lemma colon_notin_generateToken: "COLON \<notin> set (generateToken len rnd)"
proof
  assume "COLON \<in> set (generateToken len rnd)"
  then obtain i where "COLON = token_chars ! (unat (rnd i) mod length token_chars)"
    by (auto simp: generateToken_map)
  moreover have "unat (rnd i) mod length token_chars < length token_chars"
    by (simp add: length_token_chars)
  ultimately have "COLON \<in> set token_chars"
    by (metis nth_mem)
  then show False
    using colon_notin_token_chars by simp
qed

lemma hex_alphabet_distinct: "distinct (lit ''0123456789abcdef'')"
  by (simp add: lit_def)

lemma hex_digit_inj: "m < 16 \<Longrightarrow> n < 16 \<Longrightarrow> hex_digit m = hex_digit n \<Longrightarrow> m = n"
  using hex_alphabet_distinct
  by (simp add: hex_digit_def nth_eq_iff_index_eq lit_def)

lemma hex_digit_not_colon: "n < 16 \<Longrightarrow> hex_digit n \<noteq> COLON"
proof -
  assume "n < 16"
  then have "n < length (lit ''0123456789abcdef'')"
    by (simp add: lit_def)
  then have "hex_digit n \<in> set (lit ''0123456789abcdef'')"
    unfolding hex_digit_def by (rule nth_mem)
  moreover have "COLON \<notin> set (lit ''0123456789abcdef'')"
    by (simp add: lit_def COLON_def)
  ultimately show ?thesis by metis
qed

lemma hex_digit_0: "hex_digit 0 = ZERO_CHAR"
  by (simp add: hex_digit_def lit_def ZERO_CHAR_def)

lemma hex_pair: "padStart2 (toString16 b) = [hex_digit (unat b div 16), hex_digit (unat b mod 16)]"
  by (simp add: padStart2_def toString16_def hex_digit_0)

lemma unat_byte_div16: "unat (b :: 8 word) div 16 < 16"
proof -
  have "unat b < 256" using unsigned_less [of b] by simp
  then show ?thesis by simp
qed

lemma hex_pair_inj: "padStart2 (toString16 a) = padStart2 (toString16 b) \<Longrightarrow> a = b"
proof -
  assume "padStart2 (toString16 a) = padStart2 (toString16 b)"
  then have "hex_digit (unat a div 16) = hex_digit (unat b div 16)"
    and "hex_digit (unat a mod 16) = hex_digit (unat b mod 16)"
    by (simp_all add: hex_pair)
  then have "unat a div 16 = unat b div 16" and "unat a mod 16 = unat b mod 16"
    by (simp_all add: hex_digit_inj unat_byte_div16)
  then have "unat a = unat b"
    by (metis div_mult_mod_eq)
  then show ?thesis by (simp add: word_unat_eq_iff)
qed

lemma length_hex_of_bytes: "length (hex_of_bytes bs) = 2 * length bs"
  by (induction bs) (simp_all add: hex_of_bytes_def hex_pair)

lemma hex_of_bytes_inj: "hex_of_bytes xs = hex_of_bytes ys \<Longrightarrow> xs = ys"
proof (induction xs arbitrary: ys)
  case Nil
  then show ?case
    using length_hex_of_bytes [of ys] by (cases ys) (simp_all add: hex_of_bytes_def hex_pair)
next
  case (Cons x xs)
  then obtain y ys' where ys: "ys = y # ys'"
    using length_hex_of_bytes [of ys] length_hex_of_bytes [of "x # xs"] by (cases ys) auto
  from Cons.prems have "padStart2 (toString16 x) = padStart2 (toString16 y)"
    and "hex_of_bytes xs = hex_of_bytes ys'"
    by (simp_all add: ys hex_of_bytes_def hex_pair)
  then show ?case
    using Cons.IH hex_pair_inj ys by blast
qed

lemma colon_notin_hex_of_bytes: "COLON \<notin> set (hex_of_bytes bs)"
  by (induction bs) (simp_all add: hex_of_bytes_def hex_pair hex_digit_not_colon [symmetric] hex_digit_not_colon unat_byte_div16 eq_commute [of COLON])

lemma length_sha_output: "length (sha_output st) = 32"
  by (cases st rule: sha_output.cases) (simp add: be_bytes_def)

lemma length_sha256: "length (sha256 m) = 32"
  by (simp add: sha256_def length_sha_output)

lemma split_js_no_sep: "sep \<notin> set s \<Longrightarrow> split_js sep s = [s]"
  by (induction s) auto

lemma split_js_append: "sep \<notin> set s \<Longrightarrow> split_js sep (s @ sep # t) = s # split_js sep t"
  by (induction s) auto

lemma or_accumulate_zero:
  "foldl (\<lambda>result i. result OR f i) acc xs = (0 :: w32) \<longleftrightarrow> acc = 0 \<and> (\<forall>i \<in> set xs. f i = 0)"
  by (induction xs arbitrary: acc) (auto simp: or_eq_0_iff)

lemma ucast_code_unit_inj: "(ucast a :: w32) = ucast b \<Longrightarrow> a = b" for a b :: "16 word"
proof -
  assume "(ucast a :: w32) = ucast b"
  then have "(ucast (ucast a :: w32) :: 16 word) = ucast (ucast b :: w32)"
    by simp
  then show ?thesis
    by (simp add: ucast_up_ucast_id is_up)
qed

lemma xor_zero_iff: "x XOR y = 0 \<longleftrightarrow> x = y" for x y :: w32
  by (metis bit.xor_left_self xor.right_neutral)

lemma ucast_xor_zero: "(ucast a XOR ucast b :: w32) = 0 \<longleftrightarrow> a = b" for a b :: "16 word"
  using ucast_code_unit_inj [of a b] by (auto simp only: xor_zero_iff)

lemma compare_loop_zero:
  assumes "length c = length s"
  shows "compare_loop c s = 0 \<longleftrightarrow> c = s"
proof -
  have "compare_loop c s = 0 \<longleftrightarrow> (\<forall>i < length c. c ! i = s ! i)"
    unfolding compare_loop_def or_accumulate_zero ucast_xor_zero by auto
  with assms show ?thesis
    by (simp only: list_eq_iff_nth_eq) simp
qed

lemma verifyPassword_well_formed:
  assumes "COLON \<notin> set salt" "salt \<noteq> []" "length digest = 32"
  shows "verifyPassword (salt @ [COLON] @ hex_of_bytes digest) password
           \<longleftrightarrow> sha256 (encode (salt @ password)) = digest"
proof -
  have parts: "split_js COLON (salt @ COLON # hex_of_bytes digest) = [salt, hex_of_bytes digest]"
    using assms(1) by (simp add: split_js_append split_js_no_sep colon_notin_hex_of_bytes)
  have ne: "hex_of_bytes digest \<noteq> []"
    using length_hex_of_bytes [of digest] assms(3) by auto
  have len: "length (hex_of_bytes (sha256 (encode (salt @ password)))) = length (hex_of_bytes digest)"
    by (simp add: length_hex_of_bytes length_sha256 assms(3))
  show ?thesis
    using assms(2) ne len
    by (auto simp: verifyPassword_def parts nth_opt_def falsy_def Let_def compare_loop_zero
             dest: hex_of_bytes_inj)
qed

lemma verifyPassword_hashPassword:
  "verifyPassword (hashPassword rnd p) p'
     \<longleftrightarrow> sha256 (encode (generateToken 16 rnd @ p')) = sha256 (encode (generateToken 16 rnd @ p))"
proof -
  have "generateToken 16 rnd \<noteq> []"
    using length_generateToken [of 16 rnd] by auto
  then show ?thesis
    unfolding hashPassword_def Let_def
    by (rule verifyPassword_well_formed [OF colon_notin_generateToken _ length_sha256])
qed

subsection \<open>Round trip of the hasher\<close>

lemma generateToken_fixed: "generateToken 16 fixed_rnd = salt_A"
  by (simp add: generateToken_map fixed_rnd_def salt_A_def lit_def token_chars_def upt_rec)

lemma encode_lone: "encode (salt_A @ lone_password_a) = encode (salt_A @ lone_password_b)"
  by (simp add: encode_def salt_A_def lone_password_a_def lone_password_b_def lit_def
        is_high_surrogate_def is_low_surrogate_def)

text \<open>
  Claim C1, as amended. For every password \<open>p\<close> and every salt \<open>hashPassword\<close> may
  draw, \<open>verifyPassword (hashPassword p) p\<close> is true. For a candidate \<open>p'\<close>,
  \<open>verifyPassword (hashPassword p) p'\<close> is true exactly when the SHA-256 digests of the
  UTF-8 encodings of \<open>salt + p'\<close> and \<open>salt + p\<close> coincide, and false exactly when they
  differ: a different password is rejected when its salted digest differs, not in general.
\<close>

theorem hashPassword_roundtrip:
  "verifyPassword (hashPassword rnd p) p
   \<and> (verifyPassword (hashPassword rnd p) p'
        \<longleftrightarrow> sha256 (encode (generateToken 16 rnd @ p')) = sha256 (encode (generateToken 16 rnd @ p)))"
  by (simp add: verifyPassword_hashPassword)

theorem hashPassword_roundtrip_witness:
  "verifyPassword (hashPassword fixed_rnd (lit ''longpassword'')) (lit ''longpassword'')"
  using hashPassword_roundtrip [of fixed_rnd "lit ''longpassword''" "lit ''longpassword''"] by simp

text \<open>
  The claim as stated fails: the two passwords below differ in one code unit, an unpaired
  surrogate, which \<open>TextEncoder\<close> replaces by U+FFFD in both; the salted inputs of the
  digest are the same bytes, and the second password verifies against the hash of the first.
\<close>

theorem distinct_passwords_verify_counterexample:
  "lone_password_a \<noteq> lone_password_b
   \<and> verifyPassword (hashPassword fixed_rnd lone_password_a) lone_password_b"
proof
  show "lone_password_a \<noteq> lone_password_b"
    by (simp add: lone_password_a_def lone_password_b_def)
  show "verifyPassword (hashPassword fixed_rnd lone_password_a) lone_password_b"
    by (simp only: verifyPassword_hashPassword generateToken_fixed encode_lone)
qed

section \<open>Email verification\<close>

lemma find_filter_neq: "find (\<lambda>t. f t = k) (filter (\<lambda>t. f t \<noteq> k) xs) = None"
  by (induction xs) simp_all

lemma select_token_delete_token: "select_token (delete_token d tok) tok = None"
  by (simp add: select_token_def delete_token_def find_filter_neq)

lemma users_delete_token: "users (delete_token d tok) = users d"
  by (simp add: delete_token_def)

lemma tokens_update_user_verified:
  "email_verification_tokens (update_user_verified d uid) = email_verification_tokens d"
  by (simp add: update_user_verified_def)

lemma createSession_frame:
  "createSession senv d uid = Some (session, d') \<Longrightarrow>
     users d' = users d \<and> email_verification_tokens d' = email_verification_tokens d
     \<and> messages d' = messages d \<and> s_id session = sid_new senv"
  by (auto simp: createSession_def Let_def split: if_splits)

lemma verify_handler_missing:
  "verify_handler senv now d (Some tok) = reply (Html ''<h1>Invalid or expired verification link</h1>'') d"
  if "tok \<noteq> []" "select_token d tok = None"
  using that by (simp add: verify_handler_def falsy_def)

lemma verify_handler_expired:
  "verify_handler senv now d (Some tok) = reply (Html ''<h1>Verification link has expired</h1>'') (delete_token d tok)"
  if "tok \<noteq> []" "select_token d tok = Some row" "t_expires_at row < now"
  using that by (simp add: verify_handler_def falsy_def)

lemma verify_handler_valid:
  assumes "tok \<noteq> []" "select_token d tok = Some row" "now \<le> t_expires_at row"
  shows "token_accepted (verify_handler senv now d (Some tok))"
    and "users (store (verify_handler senv now d (Some tok))) = users (update_user_verified d (t_user_id row))"
    and "select_token (store (verify_handler senv now d (Some tok))) tok = None"
proof -
  let ?d2 = "delete_token (update_user_verified d (t_user_id row)) tok"
  show "token_accepted (verify_handler senv now d (Some tok))"
    using assms
    by (simp add: verify_handler_def falsy_def token_accepted_def reply_def Let_def
             split: option.split)
  show "users (store (verify_handler senv now d (Some tok))) = users (update_user_verified d (t_user_id row))"
    using assms
    by (auto simp: verify_handler_def falsy_def reply_def Let_def users_delete_token
             split: option.split dest: createSession_frame)
  have "select_token d' tok = None" if "createSession senv ?d2 (t_user_id row) = Some (s, d')" for s d'
    using createSession_frame [OF that] select_token_delete_token [of "update_user_verified d (t_user_id row)" tok]
    by (simp add: select_token_def)
  then show "select_token (store (verify_handler senv now d (Some tok))) tok = None"
    using assms
    by (auto simp: verify_handler_def falsy_def reply_def Let_def select_token_delete_token
             split: option.split)
qed

lemma verify_handler_accepted_iff:
  "token_accepted (verify_handler senv now d (Some tok))
     \<longleftrightarrow> tok \<noteq> [] \<and> (\<exists>row. select_token d tok = Some row \<and> now \<le> t_expires_at row)"
proof (cases "tok = []")
  case True
  then show ?thesis
    by (simp add: verify_handler_def falsy_def token_accepted_def reply_def)
next
  case False
  show ?thesis
  proof (cases "select_token d tok")
    case None
    with False show ?thesis
      by (simp add: verify_handler_missing token_accepted_def reply_def)
  next
    case (Some row)
    show ?thesis
    proof (cases "t_expires_at row < now")
      case True
      with False Some show ?thesis
        by (simp add: verify_handler_expired token_accepted_def reply_def)
    next
      case notexp: False
      with False Some verify_handler_valid(1) [of tok d row now senv] show ?thesis
        by simp
    qed
  qed
qed

text \<open>
  Claim C2, as amended. A non-empty verification token is accepted by \<open>/verify\<close> exactly
  when it exists in the store and \<open>now \<le> expires_at\<close> (the handler tests
  \<open>expires_at < now\<close> for expiry, so the token is still good at the instant of its
  expiry). An accepted token marks its user verified and is deleted, so a second call with
  the same token, at any time, reports the invalid link and changes nothing. A token that is
  not in the store is reported invalid with no change; an expired token is deleted and
  reported expired, and the users table is unchanged.
\<close>

theorem verify_email_token_lifecycle:
  "(token_accepted (verify_handler senv now d (Some tok))
      \<longleftrightarrow> tok \<noteq> [] \<and> (\<exists>row. select_token d tok = Some row \<and> now \<le> t_expires_at row))
   \<and> (token_accepted (verify_handler senv now d (Some tok)) \<longrightarrow>
        users (store (verify_handler senv now d (Some tok)))
          = users (update_user_verified d (t_user_id (the (select_token d tok))))
        \<and> select_token (store (verify_handler senv now d (Some tok))) tok = None
        \<and> verify_handler senv' now' (store (verify_handler senv now d (Some tok))) (Some tok)
            = reply (Html ''<h1>Invalid or expired verification link</h1>'')
                (store (verify_handler senv now d (Some tok))))
   \<and> (tok \<noteq> [] \<and> select_token d tok = None \<longrightarrow>
        verify_handler senv now d (Some tok)
          = reply (Html ''<h1>Invalid or expired verification link</h1>'') d)
   \<and> (tok \<noteq> [] \<and> (\<exists>row. select_token d tok = Some row \<and> t_expires_at row < now) \<longrightarrow>
        verify_handler senv now d (Some tok)
          = reply (Html ''<h1>Verification link has expired</h1>'') (delete_token d tok)
        \<and> users (delete_token d tok) = users d
        \<and> select_token (delete_token d tok) tok = None)"
proof (intro conjI impI)
  show "token_accepted (verify_handler senv now d (Some tok))
      \<longleftrightarrow> tok \<noteq> [] \<and> (\<exists>row. select_token d tok = Some row \<and> now \<le> t_expires_at row)"
    by (rule verify_handler_accepted_iff)
next
  assume acc: "token_accepted (verify_handler senv now d (Some tok))"
  then obtain row where ne: "tok \<noteq> []" and row: "select_token d tok = Some row"
    and le: "now \<le> t_expires_at row"
    by (auto simp: verify_handler_accepted_iff)
  show "users (store (verify_handler senv now d (Some tok)))
          = users (update_user_verified d (t_user_id (the (select_token d tok))))"
    using verify_handler_valid(2) [OF ne row le] row by simp
  show gone: "select_token (store (verify_handler senv now d (Some tok))) tok = None"
    by (rule verify_handler_valid(3) [OF ne row le])
  show "verify_handler senv' now' (store (verify_handler senv now d (Some tok))) (Some tok)
            = reply (Html ''<h1>Invalid or expired verification link</h1>'')
                (store (verify_handler senv now d (Some tok)))"
    by (rule verify_handler_missing [OF ne gone])
next
  assume "tok \<noteq> [] \<and> select_token d tok = None"
  then show "verify_handler senv now d (Some tok)
          = reply (Html ''<h1>Invalid or expired verification link</h1>'') d"
    by (simp add: verify_handler_missing)
next
  assume "tok \<noteq> [] \<and> (\<exists>row. select_token d tok = Some row \<and> t_expires_at row < now)"
  then show "verify_handler senv now d (Some tok)
          = reply (Html ''<h1>Verification link has expired</h1>'') (delete_token d tok)"
    by (auto simp: verify_handler_expired)
next
  show "users (delete_token d tok) = users d"
    by (rule users_delete_token)
  show "select_token (delete_token d tok) tok = None"
    by (rule select_token_delete_token)
qed

lemma select_alice_token: "select_token pending_db (t_token alice_token) = Some alice_token"
  by (simp add: select_token_def pending_db_def)

lemma alice_token_nonempty: "t_token alice_token \<noteq> []"
  by (simp add: alice_token_def lit_def)

theorem verify_email_token_lifecycle_witness:
  "token_accepted (verify_handler sample_senv 1700000000001 pending_db (Some (t_token alice_token)))
   \<and> select_token (store (verify_handler sample_senv 1700000000001 pending_db (Some (t_token alice_token))))
        (t_token alice_token) = None
   \<and> verify_handler sample_senv 1700000000002
        (store (verify_handler sample_senv 1700000000001 pending_db (Some (t_token alice_token))))
        (Some (t_token alice_token))
       = reply (Html ''<h1>Invalid or expired verification link</h1>'')
           (store (verify_handler sample_senv 1700000000001 pending_db (Some (t_token alice_token))))"
proof -
  have "\<exists>row. select_token pending_db (t_token alice_token) = Some row \<and> 1700000000001 \<le> t_expires_at row"
    by (simp add: select_alice_token) (simp add: alice_token_def)
  with alice_token_nonempty
  show ?thesis
    using verify_email_token_lifecycle
      [of sample_senv 1700000000001 pending_db "t_token alice_token" sample_senv 1700000000002]
    by blast
qed

text \<open>
  The claim as stated fails at the boundary: with \<open>now = expires_at\<close> the predicate
  \<open>now < expires_at\<close> is false, yet the handler verifies the user and redirects.
\<close>

theorem token_valid_at_expiry_counterexample:
  "select_token pending_db (t_token alice_token) = Some alice_token
   \<and> \<not> (1700003600000 < t_expires_at alice_token)
   \<and> resp (verify_handler sample_senv 1700003600000 pending_db (Some (t_token alice_token)))
       = Redirect ''/chat''
   \<and> map u_verified (users (store (verify_handler sample_senv 1700003600000 pending_db
          (Some (t_token alice_token))))) = [1]"
  by (simp add: select_alice_token alice_token_nonempty verify_handler_def falsy_def Let_def)
     (simp add: alice_token_def pending_db_def createSession_def update_user_verified_def
        delete_token_def Let_def sample_senv_def)

section \<open>Registration\<close>

lemma select_user_by_email_None:
  "select_user_by_email d email = None \<longleftrightarrow> email \<notin> set (map u_email (users d))"
  by (auto simp: select_user_by_email_def find_None_iff)

text \<open>
  Claim C6, as amended. For every non-empty email and every password of at least 8 code
  units, if a user with that email already exists in the store then the register handler
  answers 400 \<open>Email already registered\<close> and leaves the store unchanged, whatever the
  password and whatever the clock, the random bytes and the mail configuration.
\<close>

theorem register_existing_email_conflict:
  assumes "email \<noteq> []" and "8 \<le> length password"
    and "email \<in> set (map u_email (users d))"
  shows "register_handler env d (Some email) (Some password)
           = reply (Json 400 False ''Email already registered'') d"
proof -
  from assms(3) obtain u where "select_user_by_email d email = Some u"
    using select_user_by_email_None [of d email] by (cases "select_user_by_email d email") auto
  moreover from assms(2) have "password \<noteq> []" by auto
  ultimately show ?thesis
    using assms(1,2) by (simp add: register_handler_def falsy_def)
qed

lemma alice_email_known: "u_email alice \<in> set (map u_email (users pending_db))"
  by (simp add: pending_db_def)

lemma alice_email_nonempty: "u_email alice \<noteq> []"
  by (simp add: alice_def lit_def)

theorem register_existing_email_conflict_witness:
  "register_handler sample_renv pending_db (Some (u_email alice)) (Some (lit ''another password''))
     = reply (Json 400 False ''Email already registered'') pending_db"
proof -
  have "8 \<le> length (lit ''another password'')"
    by (simp add: lit_def)
  then show ?thesis
    using register_existing_email_conflict [OF alice_email_nonempty _ alice_email_known] by blast
qed

text \<open>
  The claim as stated fails for a password the validation rejects: the length check comes
  before the lookup, so a short password on a registered email is answered with the
  validation error, not the conflict.
\<close>

theorem register_short_password_counterexample:
  "u_email alice \<in> set (map u_email (users pending_db))
   \<and> resp (register_handler sample_renv pending_db (Some (u_email alice)) (Some (lit ''short'')))
       = Json 400 False ''Password must be at least 8 characters''"
proof
  show "u_email alice \<in> set (map u_email (users pending_db))"
    by (rule alice_email_known)
  have "length (lit ''short'') < 8" "lit ''short'' \<noteq> []"
    by (simp_all add: lit_def)
  then show "resp (register_handler sample_renv pending_db (Some (u_email alice)) (Some (lit ''short'')))
       = Json 400 False ''Password must be at least 8 characters''"
    using alice_email_nonempty by (simp add: register_handler_def falsy_def reply_def)
qed

lemma register_handler_after_writes:
  assumes "email \<noteq> []" and "8 \<le> length password"
    and "email \<notin> set (map u_email (users d))"
    and "u_id (new_user env email password) \<notin> set (map u_id (users d))"
    and "t_token (new_token env) \<notin> set (map t_token (email_verification_tokens d))"
  shows "register_handler env d (Some email) (Some password) =
           reply (if falsy (RESEND_API_KEY env) then Json 500 False ''Email service is not configured''
                  else case sendEmail (fetch_outcome env) of
                         EmailFailure err \<Rightarrow> Json 500 False err
                       | EmailSuccess \<Rightarrow> Json 200 True ''Check your email for verification link'')
             (d\<lparr>users := users d @ [new_user env email password],
                email_verification_tokens := email_verification_tokens d @ [new_token env]\<rparr>)"
proof -
  from assms(2) have pw: "password \<noteq> []" by auto
  have sel: "select_user_by_email d email = None"
    using assms(3) by (simp add: select_user_by_email_None)
  have ins_u: "insert_user d (new_user env email password)
                 = Some (d\<lparr>users := users d @ [new_user env email password]\<rparr>)"
    using assms(3,4) by (force simp: insert_user_def list_ex_iff new_user_def)
  have ins_t: "insert_token (d\<lparr>users := users d @ [new_user env email password]\<rparr>) (new_token env)
                 = Some (d\<lparr>users := users d @ [new_user env email password],
                           email_verification_tokens := email_verification_tokens d @ [new_token env]\<rparr>)"
    using assms(5) by (force simp: insert_token_def list_ex_iff new_user_def new_token_def)
  show ?thesis
    using assms(1,2) pw sel ins_u ins_t
    by (simp add: register_handler_def falsy_def Let_def new_user_def new_token_def
             split: email_result.split)
qed

text \<open>
  Claim C7. When the request passes validation, the email is new and the generated user id
  and token are fresh (both writes succeed), and then the mail credential is missing or the
  dispatcher fails, the handler answers with a 500 error, and the store it leaves holds the
  new user row, with \<open>verified = 0\<close>, and the new token row of that user: nothing is
  rolled back.
\<close>

theorem register_dispatch_failure_keeps_rows:
  assumes "email \<noteq> []" and "8 \<le> length password"
    and "email \<notin> set (map u_email (users d))"
    and "u_id (new_user env email password) \<notin> set (map u_id (users d))"
    and "t_token (new_token env) \<notin> set (map t_token (email_verification_tokens d))"
    and "falsy (RESEND_API_KEY env) \<or> sendEmail (fetch_outcome env) \<noteq> EmailSuccess"
  shows "(\<exists>err. resp (register_handler env d (Some email) (Some password)) = Json 500 False err)
    \<and> users (store (register_handler env d (Some email) (Some password)))
        = users d @ [new_user env email password]
    \<and> email_verification_tokens (store (register_handler env d (Some email) (Some password)))
        = email_verification_tokens d @ [new_token env]
    \<and> u_verified (new_user env email password) = 0
    \<and> t_user_id (new_token env) = u_id (new_user env email password)"
  using assms(6)
  by (cases "sendEmail (fetch_outcome env)")
     (auto simp: register_handler_after_writes [OF assms(1-5)] reply_def new_user_def new_token_def)

theorem register_dispatch_failure_keeps_rows_witness:
  "(\<exists>err. resp (register_handler sample_renv empty_db (Some (lit ''a@x.com'')) (Some (lit ''longpassword'')))
       = Json 500 False err)
   \<and> users (store (register_handler sample_renv empty_db (Some (lit ''a@x.com'')) (Some (lit ''longpassword''))))
       = [new_user sample_renv (lit ''a@x.com'') (lit ''longpassword'')]
   \<and> email_verification_tokens
        (store (register_handler sample_renv empty_db (Some (lit ''a@x.com'')) (Some (lit ''longpassword''))))
       = [new_token sample_renv]"
proof -
  have "lit ''a@x.com'' \<noteq> []" "8 \<le> length (lit ''longpassword'')"
    by (simp_all add: lit_def)
  moreover have "falsy (RESEND_API_KEY sample_renv) \<or> sendEmail (fetch_outcome sample_renv) \<noteq> EmailSuccess"
    by (simp add: sample_renv_def falsy_def)
  ultimately show ?thesis
    using register_dispatch_failure_keeps_rows
      [of "lit ''a@x.com''" "lit ''longpassword''" empty_db sample_renv]
    by (simp add: empty_db_def)
qed

section \<open>Login\<close>

lemma login_with_unverified:
  assumes "email \<noteq> []" and "password \<noteq> []"
    and "select_user_by_email d email = Some u" and "u_verified u = 0"
  shows "login_with check senv d (Some email) (Some password)
           = reply (Json 401 False ''Please verify your email first'') d"
  using assms by (simp add: login_with_def falsy_def)

lemma login_with_unknown:
  assumes "email \<noteq> []" and "password \<noteq> []" and "select_user_by_email d email = None"
  shows "login_with check senv d (Some email) (Some password)
           = reply (Json 401 False ''Invalid email or password'') d"
  using assms by (simp add: login_with_def falsy_def)

lemma login_with_verified:
  assumes "email \<noteq> []" and "password \<noteq> []"
    and "select_user_by_email d email = Some u" and "u_verified u \<noteq> 0"
  shows "login_with check senv d (Some email) (Some password) =
           (if \<not> check (u_password_hash u) password
            then reply (Json 401 False ''Invalid email or password'') d
            else case createSession senv d (u_id u) of
                   None \<Rightarrow> reply (Json 500 False ''Login failed'') d
                 | Some (session, d1) \<Rightarrow>
                     \<lparr>resp = Json 200 True ''Login successful'',
                      set_cookie = Some (SessionCookie (s_id session)), store = d1\<rparr>)"
  using assms by (simp add: login_with_def falsy_def Let_def)

text \<open>
  Claim C5, as amended. For a request whose email and password are both non-empty, the login
  handler answers \<open>Please verify your email first\<close> exactly when the email matches an
  existing user whose verified flag is 0. It answers the one generic error
  \<open>Invalid email or password\<close>, with the same status and the store unchanged, both when
  no user has that email and when the user is verified and the password does not verify
  against the stored digest.
\<close>

theorem login_error_responses:
  assumes "email \<noteq> []" and "password \<noteq> []"
  shows "(resp (login_handler senv d (Some email) (Some password))
            = Json 401 False ''Please verify your email first''
          \<longleftrightarrow> (\<exists>u. select_user_by_email d email = Some u \<and> u_verified u = 0))
    \<and> (select_user_by_email d email = None \<longrightarrow>
         login_handler senv d (Some email) (Some password)
           = reply (Json 401 False ''Invalid email or password'') d)
    \<and> ((\<exists>u. select_user_by_email d email = Some u \<and> u_verified u \<noteq> 0
              \<and> \<not> verifyPassword (u_password_hash u) password) \<longrightarrow>
         login_handler senv d (Some email) (Some password)
           = reply (Json 401 False ''Invalid email or password'') d)"
proof (cases "select_user_by_email d email")
  case None
  then show ?thesis
    using assms by (simp add: login_handler_def login_with_unknown reply_def)
next
  case (Some u)
  show ?thesis
  proof (cases "u_verified u = 0")
    case True
    with Some assms show ?thesis
      by (simp add: login_handler_def login_with_unverified reply_def)
  next
    case False
    with Some assms show ?thesis
      by (auto simp: login_handler_def login_with_verified reply_def split: option.split)
  qed
qed

lemma select_alice: "select_user_by_email pending_db (u_email alice) = Some alice"
  by (simp add: select_user_by_email_def pending_db_def)

lemma alice_unverified: "u_verified alice = 0"
  by (simp add: alice_def)

lemma select_seed_user: "select_user_by_email seeded_db (u_email seed_user) = Some seed_user"
  by (simp add: select_user_by_email_def seeded_db_def)

lemma seed_user_hash_malformed: "\<not> verifyPassword (u_password_hash seed_user) password"
proof -
  have "COLON \<notin> set (u_password_hash seed_user)"
    by (simp add: seed_user_def lit_def COLON_def)
  then have "split_js COLON (u_password_hash seed_user) = [u_password_hash seed_user]"
    by (rule split_js_no_sep)
  then show ?thesis
    by (simp add: verifyPassword_def nth_opt_def falsy_def)
qed

lemma select_nobody: "select_user_by_email pending_db (lit ''nobody@x.com'') = None"
  by (simp add: select_user_by_email_def pending_db_def alice_def lit_def)

theorem login_error_responses_witness:
  "resp (login_handler sample_senv pending_db (Some (u_email alice)) (Some (lit ''longpassword'')))
     = Json 401 False ''Please verify your email first''
   \<and> login_handler sample_senv pending_db (Some (lit ''nobody@x.com'')) (Some (lit ''longpassword''))
     = reply (Json 401 False ''Invalid email or password'') pending_db
   \<and> login_handler sample_senv seeded_db (Some (u_email seed_user)) (Some (lit ''testpass123''))
     = reply (Json 401 False ''Invalid email or password'') seeded_db"
proof -
  have ne: "u_email alice \<noteq> []" "lit ''longpassword'' \<noteq> []" "lit ''nobody@x.com'' \<noteq> []"
    "u_email seed_user \<noteq> []" "lit ''testpass123'' \<noteq> []"
    by (simp_all add: alice_def seed_user_def lit_def)
  have "u_verified seed_user \<noteq> 0"
    by (simp add: seed_user_def)
  then show ?thesis
    using login_error_responses [OF ne(1) ne(2), of sample_senv pending_db]
      login_error_responses [OF ne(3) ne(2), of sample_senv pending_db]
      login_error_responses [OF ne(4) ne(5), of sample_senv seeded_db]
      select_alice alice_unverified select_nobody select_seed_user
      seed_user_hash_malformed [of "lit ''testpass123''"]
    by simp
qed

text \<open>
  The claim as stated fails for an empty field: the handler first requires both fields, so
  an unknown email with an empty password gets the 400 validation error, not the generic
  credential error.
\<close>

theorem login_empty_password_unknown_email_counterexample:
  "select_user_by_email pending_db (lit ''nobody@x.com'') = None
   \<and> resp (login_handler sample_senv pending_db (Some (lit ''nobody@x.com'')) (Some []))
       = Json 400 False ''Email and password are required''"
  by (simp add: select_nobody login_handler_def login_with_def falsy_def reply_def)

text \<open>
  Claim C9, as amended. For an existing unverified user, every non-empty password, correct
  or wrong, yields \<open>Please verify your email first\<close> and leaves the store unchanged. The
  verified flag is tested before the password check is called: the result is the same
  whatever function stands in the place of \<open>verifyPassword\<close>, in particular for
  \<open>verifyPassword\<close> itself.
\<close>

theorem login_unverified_before_password_check:
  assumes "email \<noteq> []" and "password \<noteq> []"
    and "select_user_by_email d email = Some u" and "u_verified u = 0"
  shows "login_with check senv d (Some email) (Some password)
           = reply (Json 401 False ''Please verify your email first'') d
    \<and> login_handler senv d (Some email) (Some password)
           = reply (Json 401 False ''Please verify your email first'') d"
  using assms by (simp add: login_handler_def login_with_unverified)

theorem login_unverified_before_password_check_witness:
  "login_with reject_all sample_senv pending_db (Some (u_email alice)) (Some (lit ''longpassword''))
     = reply (Json 401 False ''Please verify your email first'') pending_db
   \<and> login_handler sample_senv pending_db (Some (u_email alice)) (Some (lit ''longpassword''))
     = reply (Json 401 False ''Please verify your email first'') pending_db"
proof -
  have "u_email alice \<noteq> []" "lit ''longpassword'' \<noteq> []"
    by (simp_all add: alice_def lit_def)
  then show ?thesis
    by (rule login_unverified_before_password_check [OF _ _ select_alice alice_unverified])
qed

text \<open>
  The claim as stated fails for the empty password: for the unverified user the handler
  answers the 400 validation error of its first guard.
\<close>

theorem login_unverified_empty_password_counterexample:
  "select_user_by_email pending_db (u_email alice) = Some alice \<and> u_verified alice = 0
   \<and> resp (login_handler sample_senv pending_db (Some (u_email alice)) (Some []))
       = Json 400 False ''Email and password are required''"
  by (simp add: select_alice alice_unverified login_handler_def login_with_def falsy_def reply_def)

section \<open>Message exchange\<close>

subsection \<open>Posting\<close>

lemma find_Some_mem: "find P xs = Some x \<Longrightarrow> x \<in> set xs \<and> P x"
  by (induction xs) (auto split: if_splits)

lemma validateSession_valid:
  assumes "validateSession d sessionId session_now = (Some (session, user), d1)"
  shows "d1 = d" and "user \<in> set (users d)" and "u_id user = s_user_id session"
    and "session \<in> set (sessions d)" and "s_id session = sessionId"
    and "session_now < s_expires_at session"
  using assms
  by (auto simp: validateSession_def select_user_by_id_def
           split: option.splits if_splits dest: find_Some_mem)

text \<open>
  Claim C4, as amended. With a valid session, the post handler rejects with a 400 error when
  the trimmed message is empty (or the message is absent) or the length of the message as
  submitted, before trimming, exceeds 1000 code units, and otherwise appends to the store
  left by the session check one row holding the trimmed message, the session's user and the
  current time. A submitted message of exactly 1000 characters that is not all white space
  is accepted; one of 1001 characters is rejected.
\<close>

theorem post_message_validation:
  assumes "sessionId \<noteq> []"
    and "validateSession d sessionId session_now = (Some (session, user), d1)"
  shows "post_message_handler session_now now d (Some sessionId) (Some message) =
           (if trim message = [] then reply (Json 400 False ''Message cannot be empty'') d1
            else if length message > 1000
              then reply (Json 400 False ''Message is too long (max 1000 characters)'') d1
            else reply (Json 200 True ''Message posted'')
                   (d1\<lparr>messages := messages d1 @ [posted_row d1 user message now]\<rparr>))
    \<and> post_message_handler session_now now d (Some sessionId) None
          = reply (Json 400 False ''Message cannot be empty'') d1"
proof -
  have mem: "user \<in> set (users d1)"
    using validateSession_valid(1,2) [OF assms(2)] by simp
  have ins: "insert_message d1 (u_id user) body now
               = Some (d1\<lparr>messages := messages d1 @
                    [\<lparr>m_id = next_message_id d1, m_user_id = u_id user, m_message = body,
                      m_created_at = now\<rparr>]\<rparr>)" for body
    using mem by (auto simp: insert_message_def list_ex_iff)
  have "message \<noteq> []" if "trim message \<noteq> []"
    using that by (auto simp: trim_def)
  then show ?thesis
    using assms
    by (simp add: post_message_handler_def falsy_def ins posted_row_def Let_def)
qed

lemma validate_seed_session:
  "validateSession chat_db (lit ''session0'') 1700000002000 = (Some (seed_session, seed_user), chat_db)"
  by (simp add: validateSession_def chat_db_def seeded_db_def seed_session_def
        select_user_by_id_def seed_user_def)

lemma trim_replicate_a: "0 < n \<Longrightarrow> trim (replicate n 97) = replicate n 97"
  by (simp add: trim_def is_white_space_def)

theorem post_message_validation_witness:
  "post_message_handler 1700000002000 1700000002500 chat_db (Some (lit ''session0''))
       (Some (replicate 1000 97))
     = reply (Json 200 True ''Message posted'')
         (chat_db\<lparr>messages := messages chat_db
            @ [posted_row chat_db seed_user (replicate 1000 97) 1700000002500]\<rparr>)
   \<and> post_message_handler 1700000002000 1700000002500 chat_db (Some (lit ''session0''))
       (Some (replicate 1001 97))
     = reply (Json 400 False ''Message is too long (max 1000 characters)'') chat_db
   \<and> post_message_handler 1700000002000 1700000002500 chat_db (Some (lit ''session0''))
       (Some (lit ''   ''))
     = reply (Json 400 False ''Message cannot be empty'') chat_db"
proof -
  have ne: "lit ''session0'' \<noteq> []"
    by (simp add: lit_def)
  have "trim (lit ''   '') = []"
    by (simp add: trim_def lit_def is_white_space_def)
  then show ?thesis
    using post_message_validation [OF ne validate_seed_session, of 1700000002500 "replicate 1000 97"]
      post_message_validation [OF ne validate_seed_session, of 1700000002500 "replicate 1001 97"]
      post_message_validation [OF ne validate_seed_session, of 1700000002500 "lit ''   ''"]
    by (simp add: trim_replicate_a)
qed

lemma trim_padded_message: "trim padded_message = replicate 1000 97"
proof -
  have "replicate 1000 (97 :: 16 word) = 97 # replicate 999 97"
    by (simp add: replicate_Suc [symmetric] del: replicate_Suc)
  then have "dropWhile is_white_space padded_message = padded_message"
    by (simp add: padded_message_def is_white_space_def)
  then show ?thesis
    by (simp add: trim_def) (simp add: padded_message_def is_white_space_def)
qed

text \<open>
  The claim as stated fails for a message with surrounding white space: the text below has
  exactly 1000 characters once trimmed, yet with a valid session the handler answers that it
  is too long, because the length test reads the 1001 characters submitted.
\<close>

theorem post_message_trimmed_length_counterexample:
  "length (trim padded_message) = 1000
   \<and> length padded_message = 1001
   \<and> validateSession chat_db (lit ''session0'') 1700000002000
       = (Some (seed_session, seed_user), chat_db)
   \<and> post_message_handler 1700000002000 1700000002500 chat_db (Some (lit ''session0''))
       (Some padded_message)
     = reply (Json 400 False ''Message is too long (max 1000 characters)'') chat_db"
proof (intro conjI)
  show "length (trim padded_message) = 1000"
    by (simp add: trim_padded_message)
  show len: "length padded_message = 1001"
    by (simp add: padded_message_def)
  show "validateSession chat_db (lit ''session0'') 1700000002000
       = (Some (seed_session, seed_user), chat_db)"
    by (rule validate_seed_session)
  have "lit ''session0'' \<noteq> []"
    by (simp add: lit_def)
  moreover have "padded_message \<noteq> []"
    by (simp add: padded_message_def)
  ultimately show "post_message_handler 1700000002000 1700000002500 chat_db (Some (lit ''session0''))
       (Some padded_message)
     = reply (Json 400 False ''Message is too long (max 1000 characters)'') chat_db"
    using len
    by (simp add: post_message_handler_def falsy_def validate_seed_session trim_padded_message)
qed

subsection \<open>Listing\<close>

lemma filter_unique_key:
  assumes "distinct (map f xs)" and "k \<in> set (map f xs)"
  shows "filter (\<lambda>x. k = f x) xs = [the (find (\<lambda>x. f x = k) xs)]"
  using assms
proof (induction xs)
  case Nil
  then show ?case by simp
next
  case (Cons x xs)
  show ?case
  proof (cases "f x = k")
    case True
    with Cons.prems have "\<forall>y \<in> set xs. k \<noteq> f y"
      by auto
    then have "filter (\<lambda>x. k = f x) xs = []"
      by (simp add: filter_empty_conv)
    with True show ?thesis by simp
  next
    case False
    with Cons show ?thesis by auto
  qed
qed

lemma concat_map_single:
  "(\<forall>x \<in> set xs. g x = [h x]) \<Longrightarrow> concat (map g xs) = map h xs"
  by (induction xs) simp_all

lemma joined_messages_schema_ok:
  assumes "schema_ok d"
  shows "joined_messages d = map (\<lambda>m. (m, author d m)) (messages d)"
proof -
  have "map (\<lambda>u. (m, u)) (filter (\<lambda>u. m_user_id m = u_id u) (users d)) = [(m, author d m)]"
    if "m \<in> set (messages d)" for m
    using assms that filter_unique_key [of u_id "users d" "m_user_id m"]
    by (simp add: schema_ok_def author_def select_user_by_id_def)
  then show ?thesis
    unfolding joined_messages_def by (intro concat_map_single) blast
qed

lemma insort_key_map:
  "insort_key k (f x) (map f xs) = map f (insort_key (\<lambda>y. k (f y)) x xs)"
  by (induction xs) simp_all

lemma sort_key_map: "sort_key k (map f xs) = map f (sort_key (\<lambda>y. k (f y)) xs)"
  by (induction xs) (simp_all add: insort_key_map)

lemma select_messages_schema_ok:
  assumes "schema_ok d"
  shows "select_messages d (Num a)
           = map (\<lambda>m. (m, author d m))
               (take 100 (sort_key m_created_at (filter (\<lambda>m. a < m_created_at m) (messages d))))"
  by (simp add: select_messages_def joined_messages_schema_ok [OF assms] filter_map comp_def
        sql_greater_def sort_key_map take_map)

lemma list_messages_schema_ok:
  assumes "schema_ok d"
  shows "list_messages d (Num a)
           = map (\<lambda>m. view_of (m, author d m))
               (take 100 (sort_key m_created_at (filter (\<lambda>m. a < m_created_at m) (messages d))))"
  by (simp add: list_messages_def select_messages_schema_ok [OF assms] comp_def)

lemma createdAt_list_messages:
  assumes "schema_ok d"
  shows "map v_createdAt (list_messages d (Num a))
           = take 100 (map m_created_at (sort_key m_created_at (filter (\<lambda>m. a < m_created_at m) (messages d))))"
  by (simp add: list_messages_schema_ok [OF assms] comp_def view_of_def take_map)

lemma list_messages_NaN: "list_messages d NaN = []"
  by (simp add: list_messages_def select_messages_def sql_greater_def)

text \<open>
  Claim C3, as amended. In a store that satisfies the schema, \<open>list(after)\<close> returns
  exactly the messages with \<open>created_at > after\<close>, each with its author's email, in
  nondecreasing \<open>created_at\<close> order, cut to the first 100. In particular, when every
  message has a positive time, \<open>list(0)\<close> returns the messages in nondecreasing
  \<open>createdAt\<close> order: the 100 earliest, which is all of them when at most 100 exist. And
  \<open>list(after)\<close> with \<open>after\<close> at least every \<open>created_at\<close> in the store returns the
  empty sequence, as long as no message is posted.
\<close>

theorem list_messages_contract:
  assumes "schema_ok d"
  shows "list_messages d (Num a)
           = map (\<lambda>m. view_of (m, author d m))
               (take 100 (sort_key m_created_at (filter (\<lambda>m. a < m_created_at m) (messages d))))
    \<and> sorted (map v_createdAt (list_messages d (Num a)))
    \<and> length (list_messages d (Num a)) \<le> 100
    \<and> ((\<forall>m \<in> set (messages d). 0 < m_created_at m) \<longrightarrow>
          list_messages d (Num 0)
            = map (\<lambda>m. view_of (m, author d m)) (take 100 (sort_key m_created_at (messages d))))
    \<and> ((\<forall>m \<in> set (messages d). 0 < m_created_at m) \<and> length (messages d) \<le> 100 \<longrightarrow>
          list_messages d (Num 0)
            = map (\<lambda>m. view_of (m, author d m)) (sort_key m_created_at (messages d)))
    \<and> ((\<forall>m \<in> set (messages d). m_created_at m \<le> a) \<longrightarrow> list_messages d (Num a) = [])"
proof (intro conjI impI)
  show "list_messages d (Num a)
           = map (\<lambda>m. view_of (m, author d m))
               (take 100 (sort_key m_created_at (filter (\<lambda>m. a < m_created_at m) (messages d))))"
    by (rule list_messages_schema_ok [OF assms])
  show "sorted (map v_createdAt (list_messages d (Num a)))"
    unfolding createdAt_list_messages [OF assms]
    by (intro sorted_wrt_take sorted_sort_key)
  show "length (list_messages d (Num a)) \<le> 100"
    by (simp add: list_messages_def select_messages_def)
next
  assume pos: "\<forall>m \<in> set (messages d). 0 < m_created_at m"
  then have "filter (\<lambda>m. 0 < m_created_at m) (messages d) = messages d"
    by (simp add: filter_id_conv)
  then show "list_messages d (Num 0)
            = map (\<lambda>m. view_of (m, author d m)) (take 100 (sort_key m_created_at (messages d)))"
    by (simp add: list_messages_schema_ok [OF assms])
next
  assume "(\<forall>m \<in> set (messages d). 0 < m_created_at m) \<and> length (messages d) \<le> 100"
  then have "filter (\<lambda>m. 0 < m_created_at m) (messages d) = messages d"
    and "length (sort_key m_created_at (messages d)) \<le> 100"
    by (simp_all add: filter_id_conv)
  then show "list_messages d (Num 0)
            = map (\<lambda>m. view_of (m, author d m)) (sort_key m_created_at (messages d))"
    by (simp add: list_messages_schema_ok [OF assms])
next
  assume "\<forall>m \<in> set (messages d). m_created_at m \<le> a"
  then have "filter (\<lambda>m. a < m_created_at m) (messages d) = []"
    by (auto simp: filter_empty_conv)
  then show "list_messages d (Num a) = []"
    by (simp add: list_messages_schema_ok [OF assms])
qed

lemma schema_ok_seeded: "schema_ok seeded_db"
  by (simp add: schema_ok_def seeded_db_def seed_user_def)

theorem list_messages_contract_witness:
  "map v_createdAt (list_messages seeded_db (Num 0)) = [1700000000000, 1700000001000]
   \<and> map v_email (list_messages seeded_db (Num 0)) = [lit ''test@example.com'', lit ''test@example.com'']
   \<and> map v_id (list_messages seeded_db (Num 1700000000000)) = [2]
   \<and> list_messages seeded_db (Num 1700000001000) = []"
proof -
  have "\<forall>m \<in> set (messages seeded_db). 0 < m_created_at m"
    and "\<forall>m \<in> set (messages seeded_db). m_created_at m \<le> 1700000001000"
    by (simp_all add: seeded_db_def)
  moreover have "author seeded_db m = seed_user" if "m \<in> set (messages seeded_db)" for m
    using that by (auto simp: author_def select_user_by_id_def seeded_db_def seed_user_def)
  ultimately show ?thesis
    using list_messages_contract [OF schema_ok_seeded, of 0]
      list_messages_contract [OF schema_ok_seeded, of 1700000000000]
      list_messages_contract [OF schema_ok_seeded, of 1700000001000]
    by (simp add: seeded_db_def view_of_def seed_user_def)
qed

lemma schema_ok_crowded: "schema_ok crowded_db"
  by (auto simp: schema_ok_def crowded_db_def seed_user_def numbered_message_def)

lemma crowded_sorted: "sorted (map m_created_at (map numbered_message [i..<j]))"
  by (simp add: sorted_map numbered_message_def comp_def sorted_wrt_iff_nth_less)

lemma crowded_page_one:
  "list_messages crowded_db (Num 0)
     = map (\<lambda>m. view_of (m, author crowded_db m)) (map numbered_message [1..<101])"
proof -
  have "filter (\<lambda>m. 0 < m_created_at m) (map numbered_message [1..<102]) = map numbered_message [1..<102]"
    by (simp add: filter_id_conv numbered_message_def)
  moreover have "sort_key m_created_at (map numbered_message [1..<102]) = map numbered_message [1..<102]"
    by (rule sort_key_id_if_sorted [OF crowded_sorted])
  moreover have "take 100 (map numbered_message [1..<102]) = map numbered_message [1..<101]"
    by (simp add: take_map take_upt)
  ultimately show ?thesis
    by (simp add: list_messages_schema_ok [OF schema_ok_crowded]) (simp add: crowded_db_def)
qed

lemma crowded_page_two:
  "list_messages crowded_db (Num 1700000000100) = [view_of (numbered_message 101, author crowded_db (numbered_message 101))]"
proof -
  have "[1..<102] = [1..<101] @ [101]"
    using upt_Suc_append [of 1 101] by simp
  moreover have "filter (\<lambda>m. 1700000000100 < m_created_at m) (map numbered_message [1..<101]) = []"
    by (auto simp: filter_empty_conv numbered_message_def)
  ultimately have "filter (\<lambda>m. 1700000000100 < m_created_at m) (map numbered_message [1..<102])
        = [numbered_message 101]"
    by (simp add: numbered_message_def)
  then show ?thesis
    by (simp add: list_messages_schema_ok [OF schema_ok_crowded]) (simp add: crowded_db_def)
qed

text \<open>
  The claim as stated fails once more than 100 messages exist: of 101 messages \<open>list(0)\<close>
  returns 100, not all; the greatest \<open>createdAt\<close> the caller has seen is that of the 100th
  message, and \<open>list\<close> with that time returns the 101st message although nothing was
  posted in between.
\<close>

theorem list_after_max_seen_counterexample:
  "length (messages crowded_db) = 101
   \<and> length (list_messages crowded_db (Num 0)) = 100
   \<and> v_createdAt (last (list_messages crowded_db (Num 0))) = 1700000000100
   \<and> map v_id (list_messages crowded_db (Num 1700000000100)) = [101]"
proof (intro conjI)
  show "length (messages crowded_db) = 101"
    by (simp add: crowded_db_def)
  show "length (list_messages crowded_db (Num 0)) = 100"
    by (simp add: crowded_page_one)
  have "[1..<101] = [1..<100] @ [100]"
    using upt_Suc_append [of 1 100] by simp
  then show "v_createdAt (last (list_messages crowded_db (Num 0))) = 1700000000100"
    by (simp add: crowded_page_one view_of_def numbered_message_def)
  show "map v_id (list_messages crowded_db (Num 1700000000100)) = [101]"
    by (simp add: crowded_page_two view_of_def numbered_message_def)
qed

subsection \<open>The query parameter\<close>

text \<open>
  Claim C10, as amended. The message query is total on its \<open>after\<close> parameter: it always
  answers with a message list and leaves the store unchanged. When the parameter is absent
  or empty the bound is 0, the same as \<open>list(0)\<close>: the messages with a positive time are
  returned in order, up to the limit of 100 of the query. When the parameter is a non-empty
  string with no leading integer, \<open>parseInt\<close> yields \<open>NaN\<close>, the comparison holds of no
  row and the answer is the empty list.
\<close>

theorem get_messages_total:
  "get_messages_handler d None = reply (JsonMessages (list_messages d (Num 0))) d
   \<and> get_messages_handler d (Some []) = reply (JsonMessages (list_messages d (Num 0))) d
   \<and> (s \<noteq> [] \<and> parseInt s = NaN \<longrightarrow> get_messages_handler d (Some s) = reply (JsonMessages []) d)
   \<and> (\<exists>ms. get_messages_handler d after = reply (JsonMessages ms) d)
   \<and> (schema_ok d \<and> (\<forall>m \<in> set (messages d). 0 < m_created_at m) \<longrightarrow>
        get_messages_handler d None
          = reply (JsonMessages (map (\<lambda>m. view_of (m, author d m))
                     (take 100 (sort_key m_created_at (messages d))))) d)"
proof (intro conjI impI)
  show "get_messages_handler d None = reply (JsonMessages (list_messages d (Num 0))) d"
    and "get_messages_handler d (Some []) = reply (JsonMessages (list_messages d (Num 0))) d"
    by (simp_all add: get_messages_handler_def falsy_def)
  show "\<exists>ms. get_messages_handler d after = reply (JsonMessages ms) d"
    by (auto simp: get_messages_handler_def Let_def)
next
  assume "s \<noteq> [] \<and> parseInt s = NaN"
  then show "get_messages_handler d (Some s) = reply (JsonMessages []) d"
    by (simp add: get_messages_handler_def falsy_def list_messages_NaN)
next
  assume h: "schema_ok d \<and> (\<forall>m \<in> set (messages d). 0 < m_created_at m)"
  then have "filter (\<lambda>m. 0 < m_created_at m) (messages d) = messages d"
    by (simp add: filter_id_conv)
  with h show "get_messages_handler d None
          = reply (JsonMessages (map (\<lambda>m. view_of (m, author d m))
                     (take 100 (sort_key m_created_at (messages d))))) d"
    by (simp add: get_messages_handler_def falsy_def list_messages_schema_ok)
qed

lemma parseInt_abc: "parseInt (lit ''abc'') = NaN"
  by (simp add: parseInt_def lit_def is_white_space_def is_digit_of_def digit_value_def Let_def)

theorem get_messages_total_witness:
  "get_messages_handler seeded_db (Some (lit ''abc'')) = reply (JsonMessages []) seeded_db
   \<and> get_messages_handler seeded_db None
       = reply (JsonMessages (map (\<lambda>m. view_of (m, author seeded_db m))
                  (take 100 (sort_key m_created_at (messages seeded_db))))) seeded_db"
proof -
  have "lit ''abc'' \<noteq> []"
    by (simp add: lit_def)
  moreover have "\<forall>m \<in> set (messages seeded_db). 0 < m_created_at m"
    by (simp add: seeded_db_def)
  ultimately show ?thesis
    using get_messages_total [of seeded_db "lit ''abc''" None] parseInt_abc schema_ok_seeded
    by blast
qed

text \<open>
  The claim as stated fails in two places. With 101 messages in the store the query without
  \<open>after\<close> returns 100 of them, not all. And the empty string, which \<open>parseInt\<close> maps to
  \<open>NaN\<close>, is never parsed: the handler takes it as absent and returns the messages.
\<close>

theorem get_messages_default_capped_counterexample:
  "length (messages crowded_db) = 101
   \<and> resp (get_messages_handler crowded_db None) = JsonMessages (list_messages crowded_db (Num 0))
   \<and> length (list_messages crowded_db (Num 0)) = 100
   \<and> parseInt [] = NaN
   \<and> resp (get_messages_handler seeded_db (Some [])) = JsonMessages (list_messages seeded_db (Num 0))
   \<and> map v_id (list_messages seeded_db (Num 0)) = [1, 2]"
proof (intro conjI)
  show "length (messages crowded_db) = 101"
    by (simp add: crowded_db_def)
  show "resp (get_messages_handler crowded_db None) = JsonMessages (list_messages crowded_db (Num 0))"
    and "resp (get_messages_handler seeded_db (Some [])) = JsonMessages (list_messages seeded_db (Num 0))"
    by (simp_all add: get_messages_handler_def falsy_def reply_def)
  show "length (list_messages crowded_db (Num 0)) = 100"
    by (simp add: crowded_page_one)
  show "parseInt [] = NaN"
    by (simp add: parseInt_def Let_def)
  have "author seeded_db m = seed_user" if "m \<in> set (messages seeded_db)" for m
    using that by (auto simp: author_def select_user_by_id_def seeded_db_def seed_user_def)
  then show "map v_id (list_messages seeded_db (Num 0)) = [1, 2]"
    by (simp add: list_messages_schema_ok [OF schema_ok_seeded])
       (simp add: seeded_db_def view_of_def)
qed

section \<open>The account state machine\<close>

lemma users_reply: "users (store (reply r d)) = users d"
  by (simp add: reply_def)

lemma users_register_handler:
  "users (store (register_handler env d email password)) = users d
   \<or> users (store (register_handler env d email password))
        = users d @ [new_user env (the email) (the password)]"
  by (auto simp: register_handler_def reply_def Let_def insert_user_def insert_token_def new_user_def
           split: option.splits email_result.splits if_splits)

lemma users_verify_handler:
  "users (store (verify_handler senv now d token)) = users d
   \<or> (\<exists>uid. users (store (verify_handler senv now d token))
               = map (\<lambda>u. if u_id u = uid then u\<lparr>u_verified := 1\<rparr> else u) (users d))"
  by (auto simp: verify_handler_def reply_def Let_def delete_token_def update_user_verified_def
                 createSession_def
           split: option.splits if_splits)

lemma users_login_handler: "users (store (login_handler senv d email password)) = users d"
  by (auto simp: login_handler_def login_with_def reply_def Let_def createSession_def
           split: option.splits if_splits)

lemma users_validateSession: "users (snd (validateSession d sid now)) = users d"
  by (auto simp: validateSession_def invalidateSession_def split: option.splits)

lemma users_logout_handler: "users (store (logout_handler d sid)) = users d"
  by (simp add: logout_handler_def invalidateSession_def Let_def)

lemma users_user_handler: "users (store (user_handler now d sid)) = users d"
  using users_validateSession [of d "the sid" now]
  by (auto simp: user_handler_def reply_def split: option.splits prod.splits)

lemma users_post_message_handler:
  "users (store (post_message_handler snow now d sid message)) = users d"
  using users_validateSession [of d "the sid" snow]
  by (auto simp: post_message_handler_def reply_def insert_message_def Let_def
           split: option.splits prod.splits if_splits)

lemma users_get_messages_handler: "users (store (get_messages_handler d after)) = users d"
  by (simp add: get_messages_handler_def reply_def Let_def)

lemma users_handle:
  "users (store (handle req d)) = users d
   \<or> (\<exists>env email password row.
         req = Register env email password \<and> u_verified row = 0
         \<and> users (store (handle req d)) = users d @ [row])
   \<or> (\<exists>senv now token uid.
         req = VerifyEmail senv now token
         \<and> users (store (handle req d))
             = map (\<lambda>u. if u_id u = uid then u\<lparr>u_verified := 1\<rparr> else u) (users d))"
proof (cases req)
  case (Register env email password)
  have "u_verified (new_user env (the email) (the password)) = 0"
    by (simp add: new_user_def)
  then show ?thesis
    using users_register_handler [of env d email password] Register by auto
next
  case (VerifyEmail senv now token)
  then show ?thesis
    using users_verify_handler [of senv now d token] by auto
qed (simp_all add: users_login_handler users_logout_handler users_user_handler
       users_post_message_handler users_get_messages_handler)

lemma keeps_verified_refl: "keeps_verified us us"
  by (simp add: keeps_verified_def)

lemma keeps_verified_trans:
  "keeps_verified us us' \<Longrightarrow> keeps_verified us' us'' \<Longrightarrow> keeps_verified us us''"
  by (auto simp: keeps_verified_def)

lemma keeps_verified_handle: "keeps_verified (users d) (users (store (handle req d)))"
  using users_handle [of req d]
  by (auto simp: keeps_verified_def nth_append split: if_splits)

lemma keeps_verified_run: "keeps_verified (users d) (users (run reqs d))"
proof (induction reqs arbitrary: d)
  case Nil
  show ?case by (simp add: keeps_verified_refl)
next
  case (Cons r rs)
  show ?case
    using keeps_verified_trans [OF keeps_verified_handle Cons.IH] by simp
qed

text \<open>
  Claim C8. Every operation leaves the users table as it is, or appends one row whose
  verified flag is 0 (only the register handler), or sets the verified flag of the rows of
  one user id to 1 (only the verify handler). Hence over any sequence of requests the users
  keep their places and ids, and a verified flag that is set is never cleared again.
\<close>

theorem verified_flag_monotonic:
  "(users (store (handle req d)) = users d
    \<or> (\<exists>env email password row.
          req = Register env email password \<and> u_verified row = 0
          \<and> users (store (handle req d)) = users d @ [row])
    \<or> (\<exists>senv now token uid.
          req = VerifyEmail senv now token
          \<and> users (store (handle req d))
              = map (\<lambda>u. if u_id u = uid then u\<lparr>u_verified := 1\<rparr> else u) (users d)))
   \<and> length (users d) \<le> length (users (run reqs d))
   \<and> (\<forall>i < length (users d).
         u_id (users (run reqs d) ! i) = u_id (users d ! i)
         \<and> (u_verified (users d ! i) \<noteq> 0 \<longrightarrow> u_verified (users (run reqs d) ! i) \<noteq> 0))"
  using users_handle [of req d] keeps_verified_run [of d reqs]
  unfolding keeps_verified_def by blast

theorem verified_flag_monotonic_witness:
  "u_verified (users seeded_db ! 0) \<noteq> 0
   \<and> u_verified (users (run [VerifyEmail sample_senv 1700000000001 (Some (lit ''tokenAAAA'')),
                              Register sample_renv (Some (lit ''test@example.com'')) (Some (lit ''longpassword'')),
                              Login sample_senv (Some (lit ''test@example.com'')) (Some (lit ''testpass123'')),
                              Logout None] seeded_db) ! 0) \<noteq> 0"
proof -
  have "0 < length (users seeded_db)" and "u_verified (users seeded_db ! 0) \<noteq> 0"
    by (simp_all add: seeded_db_def seed_user_def)
  then show ?thesis
    using verified_flag_monotonic [of "Logout None" seeded_db
      "[VerifyEmail sample_senv 1700000000001 (Some (lit ''tokenAAAA'')),
        Register sample_renv (Some (lit ''test@example.com'')) (Some (lit ''longpassword'')),
        Login sample_senv (Some (lit ''test@example.com'')) (Some (lit ''testpass123'')),
        Logout None]"]
    by blast
qed

subsection \<open>The schema constraints hold in every reachable store\<close>

lemma schema_ok_empty: "schema_ok empty_db"
  by (simp add: schema_ok_def empty_db_def)

lemma schema_ok_register: "schema_ok d \<Longrightarrow> schema_ok (store (register_handler env d email password))"
  by (auto simp: register_handler_def reply_def Let_def insert_user_def insert_token_def
                 schema_ok_def list_ex_iff
           split: option.splits email_result.splits if_splits)

lemma map_u_id_verified:
  "map u_id (map (\<lambda>u. if u_id u = uid then u\<lparr>u_verified := 1\<rparr> else u) us) = map u_id us"
  by (induction us) simp_all

lemma schema_ok_ids:
  "map u_id (users d') = map u_id (users d) \<Longrightarrow> messages d' = messages d
     \<Longrightarrow> schema_ok d \<Longrightarrow> schema_ok d'"
  by (simp add: schema_ok_def)

lemma messages_verify_handler: "messages (store (verify_handler senv now d token)) = messages d"
  by (auto simp: verify_handler_def reply_def Let_def delete_token_def update_user_verified_def
                 createSession_def
           split: option.splits if_splits)

lemma schema_ok_verify: "schema_ok d \<Longrightarrow> schema_ok (store (verify_handler senv now d token))"
  using users_verify_handler [of senv now d token]
  by (auto intro!: schema_ok_ids [OF _ messages_verify_handler] simp: map_u_id_verified)

lemma schema_ok_same:
  "users d' = users d \<Longrightarrow> messages d' = messages d \<Longrightarrow> schema_ok d \<Longrightarrow> schema_ok d'"
  by (simp add: schema_ok_def)

lemma messages_validateSession: "messages (snd (validateSession d sid now)) = messages d"
  by (auto simp: validateSession_def invalidateSession_def split: option.splits)

lemma insert_message_Some:
  "insert_message d uid body now = Some d' \<Longrightarrow>
     users d' = users d \<and> uid \<in> set (map u_id (users d))
     \<and> (\<exists>m. messages d' = messages d @ [m] \<and> m_user_id m = uid)"
  by (auto simp: insert_message_def list_ex_iff split: if_splits)

lemma messages_post_message_handler:
  "messages (store (post_message_handler snow now d sid message)) = messages d
   \<or> (\<exists>m. messages (store (post_message_handler snow now d sid message)) = messages d @ [m]
            \<and> m_user_id m \<in> set (map u_id (users d)))"
proof (cases "validateSession d (the sid) snow")
  case (Pair v d1)
  have d1: "users d1 = users d" "messages d1 = messages d"
    using users_validateSession [of d "the sid" snow] messages_validateSession [of d "the sid" snow]
      Pair by simp_all
  show ?thesis
  proof (cases v)
    case None
    with Pair d1 show ?thesis
      by (simp add: post_message_handler_def reply_def)
  next
    case (Some su)
    obtain session user where su: "su = (session, user)"
      by (cases su)
    show ?thesis
    proof (cases "insert_message d1 (u_id user) (trim (the message)) now")
      case None
      with Pair Some su d1 show ?thesis
        by (simp add: post_message_handler_def reply_def Let_def)
    next
      case (Some d2)
      from insert_message_Some [OF Some] d1 Pair \<open>v = Some su\<close> su Some show ?thesis
        by (auto simp: post_message_handler_def reply_def Let_def)
    qed
  qed
qed

lemma schema_ok_post:
  "schema_ok d \<Longrightarrow> schema_ok (store (post_message_handler snow now d sid message))"
  using users_post_message_handler [of snow now d sid message]
    messages_post_message_handler [of snow now d sid message]
  by (auto simp: schema_ok_def)

lemma schema_ok_handle: "schema_ok d \<Longrightarrow> schema_ok (store (handle req d))"
proof (cases req)
  case (Login senv email password)
  assume "schema_ok d"
  moreover have "messages (store (login_handler senv d email password)) = messages d"
    by (auto simp: login_handler_def login_with_def reply_def Let_def createSession_def
             split: option.splits if_splits)
  ultimately show ?thesis
    using Login schema_ok_same [OF users_login_handler] by simp
next
  case (Logout sid)
  assume "schema_ok d"
  then show ?thesis
    using Logout by (simp add: logout_handler_def invalidateSession_def Let_def schema_ok_def)
next
  case (CurrentUser now sid)
  assume "schema_ok d"
  moreover have "messages (store (user_handler now d sid)) = messages d"
    using messages_validateSession [of d "the sid" now]
    by (auto simp: user_handler_def reply_def split: option.splits prod.splits)
  ultimately show ?thesis
    using CurrentUser schema_ok_same [OF users_user_handler] by simp
next
  case (GetMessages after)
  assume "schema_ok d"
  then show ?thesis
    using GetMessages by (simp add: get_messages_handler_def reply_def Let_def)
qed (simp_all add: schema_ok_register schema_ok_verify schema_ok_post)

lemma schema_ok_run: "schema_ok d \<Longrightarrow> schema_ok (run reqs d)"
  by (induction reqs arbitrary: d) (simp_all add: schema_ok_handle)

lemma schema_ok_reachable: "schema_ok (run reqs empty_db)"
  by (rule schema_ok_run [OF schema_ok_empty])

end
